theory Spec2Isabelle
  imports Complex_Main "HOL-Library.Multiset" "HOL-Library.Log_Nat"
begin

section \<open>JavaScript Numbers\<close>

text \<open>
  A Number is an IEEE 754 double. A finite double is modelled by the rational it denotes
  (\<open>Num\<close>), the two infinities and \<open>NaN\<close> by values of their own, since JavaScript
  does not raise on a division by zero. There is one zero, standing for \<open>+0\<close>; no
  operation of the handlers produces \<open>-0\<close> and then divides by it (the divisors are an
  array length and the constant 9).
\<close>

datatype number = Num rat | PosInfinity | NegInfinity | NaN

text \<open>
  Every arithmetic operation gives the double nearest to the exact result, ties to the
  even significand: \<open>round_double\<close>. The exponent of \<open>q\<close> is \<open>floor_log2 \<bar>q\<bar>\<close>, not
  below \<open>-1022\<close> (the subnormal range); the significand has 53 bits, so the doubles of
  that exponent are the multiples of \<open>2 powi (e - 52)\<close>; a result of \<open>2 powi 1024\<close> or
  more is an infinity.
\<close>

definition round_half_even :: "rat \<Rightarrow> int" where
  "round_half_even x =
     (let f = \<lfloor>x\<rfloor>; d = x - of_int f
      in if d < 1 / 2 then f else if 1 / 2 < d then f + 1 else if even f then f else f + 1)"

definition floor_log2 :: "rat \<Rightarrow> int" where
  "floor_log2 q =
     (if 1 \<le> q then int (floorlog 2 (nat \<lfloor>q\<rfloor>)) - 1
      else - int (floorlog 2 (nat \<lceil>1 / q\<rceil> - 1)))"

definition round_double :: "rat \<Rightarrow> number" where
  "round_double q =
     (if q = 0 then Num 0
      else
        (let e = max (floor_log2 \<bar>q\<bar>) (- 1022);
             ulp = 2 powi (e - 52);
             d = of_int (round_half_even (\<bar>q\<bar> / ulp)) * ulp
         in if 2 powi 1024 \<le> d then (if 0 < q then PosInfinity else NegInfinity)
            else Num (if 0 < q then d else - d)))"

text \<open>The operators \<open>-x\<close>, \<open>x + y\<close>, \<open>x - y\<close>, \<open>x * y\<close> and \<open>x / y\<close> on Numbers.\<close>

fun js_neg :: "number \<Rightarrow> number" where
  "js_neg (Num a) = Num (- a)"
| "js_neg PosInfinity = NegInfinity"
| "js_neg NegInfinity = PosInfinity"
| "js_neg NaN = NaN"

fun js_add :: "number \<Rightarrow> number \<Rightarrow> number" where
  "js_add (Num a) (Num b) = round_double (a + b)"
| "js_add NaN y = NaN"
| "js_add x NaN = NaN"
| "js_add PosInfinity NegInfinity = NaN"
| "js_add NegInfinity PosInfinity = NaN"
| "js_add PosInfinity y = PosInfinity"
| "js_add x PosInfinity = PosInfinity"
| "js_add NegInfinity y = NegInfinity"
| "js_add x NegInfinity = NegInfinity"

definition js_sub :: "number \<Rightarrow> number \<Rightarrow> number" where
  "js_sub x y = js_add x (js_neg y)"

fun js_mul :: "number \<Rightarrow> number \<Rightarrow> number" where
  "js_mul (Num a) (Num b) = round_double (a * b)"
| "js_mul NaN y = NaN"
| "js_mul x NaN = NaN"
| "js_mul (Num a) y = (if a = 0 then NaN else if 0 < a then y else js_neg y)"
| "js_mul x (Num b) = (if b = 0 then NaN else if 0 < b then x else js_neg x)"
| "js_mul PosInfinity y = y"
| "js_mul NegInfinity y = js_neg y"

fun js_div :: "number \<Rightarrow> number \<Rightarrow> number" where
  "js_div (Num a) (Num b) =
     (if b = 0 then (if a = 0 then NaN else if 0 < a then PosInfinity else NegInfinity)
      else round_double (a / b))"
| "js_div NaN y = NaN"
| "js_div x NaN = NaN"
| "js_div (Num a) y = Num 0"
| "js_div x (Num b) = (if 0 \<le> b then x else js_neg x)"
| "js_div PosInfinity y = NaN"
| "js_div NegInfinity y = NaN"

text \<open>\<open>Math.ceil\<close>\<close>

fun Math_ceil :: "number \<Rightarrow> number" where
  "Math_ceil (Num a) = Num (of_int \<lceil>a\<rceil>)"
| "Math_ceil x = x"

text \<open>
  The Number that holds an integer of the model (a stored rating, an array length, a
  count): the integer itself when it is below \<open>2 ^ 53\<close> in absolute value.
\<close>

definition Number_of_int :: "int \<Rightarrow> number" where
  "Number_of_int n = round_double (of_int n)"

section \<open>Data model (server.js: the Mongoose schemas)\<close>

text \<open>
  An ObjectId is modelled as a natural number. The rating of a review is an integer (the
  routes accept no other), the rating of a book is the Number the handlers compute.
\<close>

type_synonym oid = nat

record book =
  book_id :: oid
  title :: string
  author :: string
  description :: string
  genre :: string
  publishedDate :: "nat option"
  coverImage :: "string option"
  rating :: number
  reviewCount :: nat
  book_createdAt :: nat
  book_updatedAt :: nat

record review =
  review_id :: oid
  bookId :: oid
  userId :: oid
  review_rating :: int
  content :: string
  review_createdAt :: nat
  review_updatedAt :: nat

record user =
  user_id :: oid
  username :: string
  email :: string
  password :: string
  profilePicture :: "string option"
  bio :: "string option"
  user_createdAt :: nat

text \<open>
  The document store: the three collections in insertion order, the next ObjectId the
  driver hands out, and the in-memory hit counters of the two rate limiters
  (client key \<open>\<mapsto>\<close> (hits in the current window, time the window ends)).
\<close>

record store =
  books :: "book list"
  reviews :: "review list"
  users :: "user list"
  next_oid :: oid
  authLimiter_hits :: "string \<rightharpoonup> nat \<times> nat"
  apiLimiter_hits :: "string \<rightharpoonup> nat \<times> nat"

section \<open>Requests, responses and the environment\<close>

datatype json =
    JNull
  | JStr string
  | JInt int
  | JNumber number
  | JOid oid
  | JDate nat
  | JObj "(string \<times> json) list"
  | JArr "json list"

record response =
  status :: nat
  body :: json

text \<open>The payload of a session token: \<open>{ id, username }\<close>.\<close>

record claims =
  claims_id :: oid
  claims_username :: string

text \<open>
  The query parameter \<open>page\<close>, when the request has one, is a text. The listing uses it
  in two ways only: in \<open>page - 1\<close>, which converts it to a Number, and in
  \<open>parseInt(page)\<close>. A present parameter is modelled by these two Numbers:
  \<open>page=2\<close> is \<open>\<lparr>ToNumber = Num 2, parseInt = Num 2\<rparr>\<close>, \<open>page=\<close> is
  \<open>\<lparr>ToNumber = Num 0, parseInt = NaN\<rparr>\<close>, \<open>page=abc\<close> is
  \<open>\<lparr>ToNumber = NaN, parseInt = NaN\<rparr>\<close>, and \<open>page=2.5\<close> is
  \<open>\<lparr>ToNumber = Num (5 / 2), parseInt = Num 2\<rparr>\<close>.
\<close>

record page_param =
  ToNumber :: number
  parseInt :: number

text \<open>
  A request after \<open>express.json()\<close> has parsed it. A body field or route parameter that
  is absent, or not of the type its reader needs (an id that does not cast to an ObjectId,
  a rating that is not an integer, a text that is not a string), is \<open>None\<close>;
  \<open>query_page\<close> is \<open>None\<close> only when the request has no \<open>page\<close> parameter.
  \<open>req_user\<close> is the \<open>req.user\<close> that \<open>authenticate\<close> sets; \<open>validation_errors\<close> is
  what the validation chains have recorded on the request, as (field, message) pairs.
\<close>

record request =
  req_ip :: string
  req_time :: nat
  authorization :: "string option"
  param_id :: "oid option"
  query_page :: "page_param option"
  query_search :: string
  query_genre :: string
  body_bookId :: "oid option"
  body_rating :: "int option"
  body_content :: "string option"
  body_username :: "string option"
  body_email :: "string option"
  body_password :: "string option"
  req_user :: "claims option"
  validation_errors :: "(string \<times> string) list"

text \<open>
  The libraries the handlers call, taken as parameters: \<open>jsonwebtoken\<close> (with the
  secret fixed; both calls see the clock), \<open>bcryptjs\<close>, the e-mail validators of
  \<open>express-validator\<close>, and the regular-expression engine (\<open>None\<close> when
  \<open>new RegExp\<close> throws a SyntaxError).
\<close>

record env =
  jwt_sign :: "claims \<Rightarrow> nat \<Rightarrow> string"
  jwt_verify :: "string \<Rightarrow> nat \<Rightarrow> claims option"
  bcrypt_genSalt :: "nat \<Rightarrow> string"
  bcrypt_hash :: "string \<Rightarrow> string \<Rightarrow> string"
  bcrypt_compare :: "string \<Rightarrow> string \<Rightarrow> bool"
  isEmail :: "string \<Rightarrow> bool"
  normalizeEmail :: "string \<Rightarrow> string"
  new_RegExp_i :: "string \<Rightarrow> (string \<Rightarrow> bool) option"

text \<open>
  Express runs a route's middleware in order; each one either answers the request
  (\<open>Inl\<close>) or calls \<open>next()\<close> with the request it may have changed (\<open>Inr\<close>).
\<close>

type_synonym handler = "env \<Rightarrow> request \<Rightarrow> store \<Rightarrow> response \<times> store"
type_synonym middleware = "env \<Rightarrow> request \<Rightarrow> store \<Rightarrow> (response \<times> store) + (request \<times> store)"

fun route :: "middleware list \<Rightarrow> handler \<Rightarrow> handler" where
  "route [] h env req s = h env req s"
| "route (m # ms) h env req s =
     (case m env req s of
        Inl answered \<Rightarrow> answered
      | Inr (req', s') \<Rightarrow> route ms h env req' s')"

definition error_json :: "string \<Rightarrow> json" where
  "error_json msg = JObj [(''error'', JStr msg)]"

text \<open>The \<open>catch\<close> branch of every handler: \<open>res.status(500).json({ error: error.message })\<close>.\<close>

definition server_error :: "string \<Rightarrow> response" where
  "server_error msg = \<lparr>status = 500, body = error_json msg\<rparr>"

section \<open>middleware/auth.js\<close>

subsection \<open>Rate limiting configuration\<close>

record limiter =
  windowMs :: nat
  limiter_max :: nat
  message :: string

definition authLimiter_config :: limiter where
  "authLimiter_config =
     \<lparr>windowMs = 15 * 60 * 1000, limiter_max = 5,
      message = ''Too many login attempts, please try again later''\<rparr>"

definition apiLimiter_config :: limiter where
  "apiLimiter_config =
     \<lparr>windowMs = 60 * 1000, limiter_max = 100,
      message = ''Too many requests, please try again later.''\<rparr>"

text \<open>
  Modelled from the library's documentation (\<open>express-rate-limit\<close> is not part of the
  repository): a fixed window per client key; a hit after the window's end starts a new
  window; the hit is counted first and the request passes while the count is at most
  \<open>max\<close>. Returns whether the request passes, and the counters.
\<close>

definition rateLimit ::
  "limiter \<Rightarrow> (string \<rightharpoonup> nat \<times> nat) \<Rightarrow> string \<Rightarrow> nat \<Rightarrow> bool \<times> (string \<rightharpoonup> nat \<times> nat)" where
  "rateLimit cfg hits key now =
     (let (count, reset) =
            (case hits key of
               None \<Rightarrow> (0, now + windowMs cfg)
             | Some (c, r) \<Rightarrow> if now < r then (c, r) else (0, now + windowMs cfg));
          count' = count + 1
      in (count' \<le> limiter_max cfg, hits(key \<mapsto> (count', reset))))"

definition authLimiter :: middleware where
  "authLimiter env req s =
     (case rateLimit authLimiter_config (authLimiter_hits s) (req_ip req) (req_time req) of
        (pass, hits') \<Rightarrow>
          if pass then Inr (req, s\<lparr>authLimiter_hits := hits'\<rparr>)
          else Inl (\<lparr>status = 429, body = JStr (message authLimiter_config)\<rparr>,
                    s\<lparr>authLimiter_hits := hits'\<rparr>))"

definition apiLimiter :: middleware where
  "apiLimiter env req s =
     (case rateLimit apiLimiter_config (apiLimiter_hits s) (req_ip req) (req_time req) of
        (pass, hits') \<Rightarrow>
          if pass then Inr (req, s\<lparr>apiLimiter_hits := hits'\<rparr>)
          else Inl (\<lparr>status = 429, body = JStr (message apiLimiter_config)\<rparr>,
                    s\<lparr>apiLimiter_hits := hits'\<rparr>))"

subsection \<open>Authentication middleware\<close>

text \<open>\<open>String.prototype.split\<close> with a one-character separator.\<close>

fun split :: "char \<Rightarrow> string \<Rightarrow> string list" where
  "split sep [] = [[]]"
| "split sep (c # cs) =
     (if c = sep then [] # split sep cs
      else (case split sep cs of
              [] \<Rightarrow> [[c]]
            | w # ws \<Rightarrow> (c # w) # ws))"

definition startsWith :: "string \<Rightarrow> string \<Rightarrow> bool" where
  "startsWith str pre = (take (length pre) str = pre)"

text \<open>Reading an array element: \<open>undefined\<close> (here \<open>None\<close>) when out of range.\<close>

definition at_index :: "'a list \<Rightarrow> nat \<Rightarrow> 'a option" where
  "at_index xs i = (if i < length xs then Some (xs ! i) else None)"

definition authenticate :: middleware where
  "authenticate env req s =
     (case authorization req of
        None \<Rightarrow> Inl (\<lparr>status = 401, body = error_json ''Authentication required''\<rparr>, s)
      | Some authHeader \<Rightarrow>
          if authHeader = [] \<or> \<not> startsWith authHeader ''Bearer ''
          then Inl (\<lparr>status = 401, body = error_json ''Authentication required''\<rparr>, s)
          else
            (case at_index (split CHR '' '' authHeader) 1 of
               None \<Rightarrow> Inl (\<lparr>status = 401, body = error_json ''Invalid token''\<rparr>, s)
             | Some token \<Rightarrow>
                 (case jwt_verify env token (req_time req) of
                    None \<Rightarrow> Inl (\<lparr>status = 401, body = error_json ''Invalid token''\<rparr>, s)
                  | Some decoded \<Rightarrow> Inr (req\<lparr>req_user := Some decoded\<rparr>, s))))"

subsection \<open>Validation schemas\<close>

text \<open>The sanitizer \<open>trim()\<close>: white space removed at both ends.\<close>

definition is_space :: "char \<Rightarrow> bool" where
  "is_space c = (c \<in> set [CHR '' '', CHR 0x09, CHR 0x0A, CHR 0x0B, CHR 0x0C, CHR 0x0D])"

definition trim :: "string \<Rightarrow> string" where
  "trim str = rev (dropWhile is_space (rev (dropWhile is_space str)))"

definition isInt :: "int option \<Rightarrow> int \<Rightarrow> int \<Rightarrow> bool" where
  "isInt v lo hi = (case v of None \<Rightarrow> False | Some n \<Rightarrow> lo \<le> n \<and> n \<le> hi)"

text \<open>
  The two validation chains of \<open>reviewValidation\<close>, each giving the errors it records;
  the sanitizer \<open>trim()\<close> of the second one rewrites \<open>req.body.content\<close>.
\<close>

definition review_rating_errors :: "request \<Rightarrow> (string \<times> string) list" where
  "review_rating_errors req =
     (if isInt (body_rating req) 1 5 then []
      else [(''rating'', ''Rating must be between 1 and 5'')])"

definition review_content_errors :: "request \<Rightarrow> (string \<times> string) list" where
  "review_content_errors req =
     (case body_content req of
        None \<Rightarrow> [(''content'', ''Invalid value''),
                  (''content'', ''Review must be between 10 and 1000 characters'')]
      | Some c \<Rightarrow>
          if 10 \<le> length (trim c) \<and> length (trim c) \<le> 1000 then []
          else [(''content'', ''Review must be between 10 and 1000 characters'')])"

definition reviewValidation :: middleware where
  "reviewValidation env req s =
     Inr (req\<lparr>body_content := map_option trim (body_content req),
              validation_errors :=
                validation_errors req @ review_rating_errors req @ review_content_errors req\<rparr>,
          s)"

text \<open>
  The password pattern \<open>/^(?=.*[A-Za-z])(?=.*\d)/\<close>: as \<open>.\<close> does not cross a line
  terminator, the first line must hold a letter and a digit.
\<close>

definition is_letter :: "char \<Rightarrow> bool" where
  "is_letter c = (let n = (of_char c :: nat) in (65 \<le> n \<and> n \<le> 90) \<or> (97 \<le> n \<and> n \<le> 122))"

definition is_digit :: "char \<Rightarrow> bool" where
  "is_digit c = (let n = (of_char c :: nat) in 48 \<le> n \<and> n \<le> 57)"

definition password_pattern :: "string \<Rightarrow> bool" where
  "password_pattern p =
     (let line = takeWhile (\<lambda>c. c \<noteq> CHR 0x0A \<and> c \<noteq> CHR 0x0D) p
      in list_ex is_letter line \<and> list_ex is_digit line)"

definition user_username_errors :: "request \<Rightarrow> (string \<times> string) list" where
  "user_username_errors req =
     (case body_username req of
        None \<Rightarrow> [(''username'', ''Invalid value''),
                  (''username'', ''Username must be between 3 and 30 characters'')]
      | Some u \<Rightarrow>
          if 3 \<le> length (trim u) \<and> length (trim u) \<le> 30 then []
          else [(''username'', ''Username must be between 3 and 30 characters'')])"

definition user_email_errors :: "env \<Rightarrow> request \<Rightarrow> (string \<times> string) list" where
  "user_email_errors env req =
     (case body_email req of
        None \<Rightarrow> [(''email'', ''Invalid email address'')]
      | Some e \<Rightarrow> if isEmail env e then [] else [(''email'', ''Invalid email address'')])"

definition user_password_errors :: "request \<Rightarrow> (string \<times> string) list" where
  "user_password_errors req =
     (case body_password req of
        None \<Rightarrow>
          [(''password'', ''Invalid value''), (''password'', ''Invalid value''),
           (''password'',
            ''Password must be at least 8 characters and contain both letters and numbers'')]
      | Some p \<Rightarrow>
          (if 8 \<le> length p then [] else [(''password'', ''Invalid value'')]) @
          (if password_pattern p then []
           else [(''password'',
                  ''Password must be at least 8 characters and contain both letters and numbers'')]))"

definition userValidation :: middleware where
  "userValidation env req s =
     Inr (req\<lparr>body_username := map_option trim (body_username req),
              body_email := map_option (normalizeEmail env) (body_email req),
              validation_errors :=
                validation_errors req @ user_username_errors req @ user_email_errors env req
                  @ user_password_errors req\<rparr>,
          s)"

subsection \<open>Validation middleware\<close>

definition validation_error_json :: "string \<times> string \<Rightarrow> json" where
  "validation_error_json e =
     JObj [(''msg'', JStr (snd e)), (''param'', JStr (fst e)), (''location'', JStr ''body'')]"

definition validate :: middleware where
  "validate env req s =
     (if validation_errors req \<noteq> []
      then Inl (\<lparr>status = 400,
                 body = JObj [(''errors'', JArr (map validation_error_json (validation_errors req)))]\<rparr>,
                s)
      else Inr (req, s))"

section \<open>routes/reviews.js\<close>

subsection \<open>The Mongoose operations the handlers use\<close>

text \<open>
  \<open>Model.findOne(filter)\<close> and \<open>Model.findById(id)\<close> give the first match
  (\<^const>\<open>find\<close>, with \<open>None\<close> for \<open>null\<close>), \<open>Model.find(filter)\<close> gives all
  matches in order (\<^const>\<open>filter\<close>). An operation on the one document with a given
  \<open>_id\<close> acts on the first match.
\<close>

fun update_first :: "('a \<Rightarrow> bool) \<Rightarrow> ('a \<Rightarrow> 'a) \<Rightarrow> 'a list \<Rightarrow> 'a list" where
  "update_first P f [] = []"
| "update_first P f (x # xs) = (if P x then f x # xs else x # update_first P f xs)"

fun remove_first :: "('a \<Rightarrow> bool) \<Rightarrow> 'a list \<Rightarrow> 'a list" where
  "remove_first P [] = []"
| "remove_first P (x # xs) = (if P x then xs else x # remove_first P xs)"

definition Book_findById :: "oid \<Rightarrow> store \<Rightarrow> book option" where
  "Book_findById i s = find (\<lambda>b. book_id b = i) (books s)"

definition User_findById :: "oid \<Rightarrow> store \<Rightarrow> user option" where
  "User_findById i s = find (\<lambda>u. user_id u = i) (users s)"

text \<open>\<open>Review.find({ bookId })\<close> and \<open>Review.findOne({ _id, userId })\<close>\<close>

definition Review_find_bookId :: "oid \<Rightarrow> store \<Rightarrow> review list" where
  "Review_find_bookId b s = filter (\<lambda>r. bookId r = b) (reviews s)"

definition Review_findOne_id_userId :: "oid \<Rightarrow> oid \<Rightarrow> store \<Rightarrow> review option" where
  "Review_findOne_id_userId i u s = find (\<lambda>r. review_id r = i \<and> userId r = u) (reviews s)"

text \<open>\<open>Review.findOne({ bookId, userId })\<close>\<close>

definition Review_findOne_bookId_userId :: "oid \<Rightarrow> oid \<Rightarrow> store \<Rightarrow> review option" where
  "Review_findOne_bookId_userId b u s = find (\<lambda>r. bookId r = b \<and> userId r = u) (reviews s)"

definition Book_findByIdAndUpdate :: "oid \<Rightarrow> (book \<Rightarrow> book) \<Rightarrow> store \<Rightarrow> store" where
  "Book_findByIdAndUpdate i f s = s\<lparr>books := update_first (\<lambda>b. book_id b = i) f (books s)\<rparr>"

text \<open>
  \<open>new Review({...}).save()\<close>: the schema's validators run first (rating a number between
  1 and 5, content a non-empty string) and raise a ValidationError; the document gets a
  fresh \<open>_id\<close> and the default timestamps.
\<close>

definition Review_create ::
  "oid \<Rightarrow> oid \<Rightarrow> int option \<Rightarrow> string option \<Rightarrow> nat \<Rightarrow> store \<Rightarrow> string + review \<times> store" where
  "Review_create b u r c now s =
     (case (r, c) of
        (Some r', Some c') \<Rightarrow>
          if r' < 1 \<or> 5 < r' \<or> c' = [] then Inl ''Review validation failed''
          else
            (let doc = \<lparr>review_id = next_oid s, bookId = b, userId = u, review_rating = r',
                        content = c', review_createdAt = now, review_updatedAt = now\<rparr>
             in Inr (doc, s\<lparr>reviews := reviews s @ [doc], next_oid := Suc (next_oid s)\<rparr>))
      | _ \<Rightarrow> Inl ''Review validation failed'')"

text \<open>\<open>review.save()\<close> on a loaded document whose fields were assigned.\<close>

definition Review_save ::
  "review \<Rightarrow> int option \<Rightarrow> string option \<Rightarrow> nat \<Rightarrow> store \<Rightarrow> string + review \<times> store" where
  "Review_save doc r c now s =
     (case (r, c) of
        (Some r', Some c') \<Rightarrow>
          if r' < 1 \<or> 5 < r' \<or> c' = [] then Inl ''Review validation failed''
          else
            (let doc' = doc\<lparr>review_rating := r', content := c', review_updatedAt := now\<rparr>
             in Inr (doc', s\<lparr>reviews :=
                       update_first (\<lambda>x. review_id x = review_id doc) (\<lambda>_. doc') (reviews s)\<rparr>))
      | _ \<Rightarrow> Inl ''Review validation failed'')"

definition Review_remove :: "review \<Rightarrow> store \<Rightarrow> store" where
  "Review_remove doc s =
     s\<lparr>reviews := remove_first (\<lambda>x. review_id x = review_id doc) (reviews s)\<rparr>"

text \<open>\<open>bookReviews.reduce((acc, review) => acc + review.rating, 0)\<close>\<close>

definition sum_ratings :: "review list \<Rightarrow> number" where
  "sum_ratings bookReviews =
     foldl (\<lambda>acc review. js_add acc (Number_of_int (review_rating review))) (Num 0) bookReviews"

text \<open>\<open>review.populate('userId', 'username')\<close> and the JSON of the document.\<close>

definition populate_userId :: "store \<Rightarrow> oid \<Rightarrow> json" where
  "populate_userId s u =
     (case User_findById u s of
        None \<Rightarrow> JNull
      | Some x \<Rightarrow> JObj [(''_id'', JOid (user_id x)), (''username'', JStr (username x))])"

definition review_json :: "store \<Rightarrow> review \<Rightarrow> json" where
  "review_json s r =
     JObj [(''_id'', JOid (review_id r)), (''bookId'', JOid (bookId r)),
           (''userId'', populate_userId s (userId r)), (''rating'', JInt (review_rating r)),
           (''content'', JStr (content r)), (''createdAt'', JDate (review_createdAt r)),
           (''updatedAt'', JDate (review_updatedAt r))]"

subsection \<open>Create a new review\<close>

text \<open>
  Inside the \<open>try\<close>: reading \<open>req.user.id\<close> without a user, a \<open>bookId\<close> that is absent or
  does not cast, and a failed \<open>save\<close> all end in the \<open>catch\<close> branch, before any write.
\<close>

definition create_review :: handler where
  "create_review env req s =
     (case (body_bookId req, req_user req) of
        (Some b, Some usr) \<Rightarrow>
          (case Review_findOne_bookId_userId b (claims_id usr) s of
             Some existingReview \<Rightarrow>
               (\<lparr>status = 400, body = error_json ''You have already reviewed this book''\<rparr>, s)
           | None \<Rightarrow>
               (case Review_create b (claims_id usr) (body_rating req) (body_content req)
                       (req_time req) s of
                  Inl msg \<Rightarrow> (server_error msg, s)
                | Inr (review, s1) \<Rightarrow>
                    (let bookReviews = Review_find_bookId b s1;
                         averageRating = js_div (sum_ratings bookReviews)
                                           (Number_of_int (int (length bookReviews)));
                         s2 = Book_findByIdAndUpdate b
                                (\<lambda>bk. bk\<lparr>rating := averageRating,
                                          reviewCount := length bookReviews\<rparr>) s1
                     in (\<lparr>status = 201, body = review_json s2 review\<rparr>, s2))))
      | _ \<Rightarrow> (server_error ''Internal error'', s))"

definition post_reviews :: handler where
  "post_reviews = route [authenticate, reviewValidation, validate] create_review"

subsection \<open>Update a review\<close>

definition update_review :: handler where
  "update_review env req s =
     (case (param_id req, req_user req) of
        (Some i, Some usr) \<Rightarrow>
          (case Review_findOne_id_userId i (claims_id usr) s of
             None \<Rightarrow> (\<lparr>status = 404, body = error_json ''Review not found''\<rparr>, s)
           | Some review \<Rightarrow>
               (case Review_save review (body_rating req) (body_content req) (req_time req) s of
                  Inl msg \<Rightarrow> (server_error msg, s)
                | Inr (review', s1) \<Rightarrow>
                    (let bookReviews = Review_find_bookId (bookId review') s1;
                         averageRating = js_div (sum_ratings bookReviews)
                                           (Number_of_int (int (length bookReviews)));
                         s2 = Book_findByIdAndUpdate (bookId review')
                                (\<lambda>bk. bk\<lparr>rating := averageRating\<rparr>) s1
                     in (\<lparr>status = 200, body = review_json s2 review'\<rparr>, s2))))
      | _ \<Rightarrow> (server_error ''Internal error'', s))"

definition put_reviews :: handler where
  "put_reviews = route [authenticate, reviewValidation, validate] update_review"

subsection \<open>Delete a review\<close>

definition delete_review :: handler where
  "delete_review env req s =
     (case (param_id req, req_user req) of
        (Some i, Some usr) \<Rightarrow>
          (case Review_findOne_id_userId i (claims_id usr) s of
             None \<Rightarrow> (\<lparr>status = 404, body = error_json ''Review not found''\<rparr>, s)
           | Some review \<Rightarrow>
               (let s1 = Review_remove review s;
                    bookReviews = Review_find_bookId (bookId review) s1;
                    averageRating =
                      (if length bookReviews > 0
                       then js_div (sum_ratings bookReviews)
                              (Number_of_int (int (length bookReviews)))
                       else Num 0);
                    s2 = Book_findByIdAndUpdate (bookId review)
                           (\<lambda>bk. bk\<lparr>rating := averageRating,
                                     reviewCount := length bookReviews\<rparr>) s1
                in (\<lparr>status = 200,
                     body = JObj [(''message'', JStr ''Review deleted successfully'')]\<rparr>, s2)))
      | _ \<Rightarrow> (server_error ''Internal error'', s))"

definition delete_reviews :: handler where
  "delete_reviews = route [authenticate] delete_review"

section \<open>routes/auth.js\<close>

text \<open>\<open>User.findOne({ $or: [{ email }, { username }] })\<close> and \<open>User.findOne({ email })\<close>\<close>

definition User_findOne_email_or_username :: "string \<Rightarrow> string \<Rightarrow> store \<Rightarrow> user option" where
  "User_findOne_email_or_username em un s =
     find (\<lambda>u. email u = em \<or> username u = un) (users s)"

definition User_findOne_email :: "string \<Rightarrow> store \<Rightarrow> user option" where
  "User_findOne_email em s = find (\<lambda>u. email u = em) (users s)"

text \<open>
  \<open>new User({...}).save()\<close>: the required fields must be non-empty, and the unique
  indexes on \<open>username\<close> and \<open>email\<close> reject a duplicate.
\<close>

definition User_create :: "string \<Rightarrow> string \<Rightarrow> string \<Rightarrow> nat \<Rightarrow> store \<Rightarrow> string + user \<times> store" where
  "User_create un em pw now s =
     (if un = [] \<or> em = [] \<or> pw = [] then Inl ''User validation failed''
      else if list_ex (\<lambda>u. username u = un \<or> email u = em) (users s)
      then Inl ''E11000 duplicate key error''
      else
        (let doc = \<lparr>user_id = next_oid s, username = un, email = em, password = pw,
                    profilePicture = None, bio = None, user_createdAt = now\<rparr>
         in Inr (doc, s\<lparr>users := users s @ [doc], next_oid := Suc (next_oid s)\<rparr>)))"

text \<open>The body both \<open>/register\<close> and \<open>/login\<close> send: the token and three fields of the user.\<close>

definition session_json :: "string \<Rightarrow> user \<Rightarrow> json" where
  "session_json token usr =
     JObj [(''token'', JStr token),
           (''user'', JObj [(''id'', JOid (user_id usr)),
                            (''username'', JStr (username usr)),
                            (''email'', JStr (email usr))])]"

subsection \<open>Register new user\<close>

definition register_user :: handler where
  "register_user env req s =
     (case (body_username req, body_email req, body_password req) of
        (Some un, Some em, Some pw) \<Rightarrow>
          (case User_findOne_email_or_username em un s of
             Some existingUser \<Rightarrow>
               (\<lparr>status = 400,
                 body = error_json ''User with this email or username already exists''\<rparr>, s)
           | None \<Rightarrow>
               (let salt = bcrypt_genSalt env 10;
                    hashedPassword = bcrypt_hash env pw salt
                in case User_create un em hashedPassword (req_time req) s of
                     Inl msg \<Rightarrow> (server_error msg, s)
                   | Inr (usr, s1) \<Rightarrow>
                       (let token = jwt_sign env
                                      \<lparr>claims_id = user_id usr, claims_username = username usr\<rparr>
                                      (req_time req)
                        in (\<lparr>status = 201, body = session_json token usr\<rparr>, s1))))
      | _ \<Rightarrow> (server_error ''Internal error'', s))"

definition post_register :: handler where
  "post_register = route [userValidation, validate] register_user"

subsection \<open>Login user\<close>

definition login_email_errors :: "env \<Rightarrow> request \<Rightarrow> (string \<times> string) list" where
  "login_email_errors env req =
     (case body_email req of
        None \<Rightarrow> [(''email'', ''Invalid value'')]
      | Some e \<Rightarrow> if isEmail env e then [] else [(''email'', ''Invalid value'')])"

definition login_password_errors :: "request \<Rightarrow> (string \<times> string) list" where
  "login_password_errors req =
     (case body_password req of
        None \<Rightarrow> [(''password'', ''Invalid value'')]
      | Some p \<Rightarrow> [])"

definition loginValidation :: middleware where
  "loginValidation env req s =
     Inr (req\<lparr>body_email := map_option (normalizeEmail env) (body_email req),
              validation_errors :=
                validation_errors req @ login_email_errors env req @ login_password_errors req\<rparr>,
          s)"

text \<open>
  Without an e-mail address in the body the lookup finds no user; a password that is not
  a string makes \<open>bcrypt.compare\<close> throw. (Neither happens behind \<open>validate\<close>.)
\<close>

definition login_user :: handler where
  "login_user env req s =
     (case (case body_email req of None \<Rightarrow> None | Some em \<Rightarrow> User_findOne_email em s) of
        None \<Rightarrow> (\<lparr>status = 401, body = error_json ''Invalid credentials''\<rparr>, s)
      | Some usr \<Rightarrow>
          (case body_password req of
             None \<Rightarrow> (server_error ''Illegal arguments'', s)
           | Some pw \<Rightarrow>
               if \<not> bcrypt_compare env pw (password usr)
               then (\<lparr>status = 401, body = error_json ''Invalid credentials''\<rparr>, s)
               else
                 (let token = jwt_sign env
                                \<lparr>claims_id = user_id usr, claims_username = username usr\<rparr>
                                (req_time req)
                  in (\<lparr>status = 200, body = session_json token usr\<rparr>, s))))"

definition post_login :: handler where
  "post_login = route [authLimiter, loginValidation, validate] login_user"

subsection \<open>Get current user\<close>

text \<open>The stored document, field by field, and the projection \<open>select('-password')\<close>.\<close>

definition user_document :: "user \<Rightarrow> (string \<times> json) list" where
  "user_document u =
     [(''_id'', JOid (user_id u)), (''username'', JStr (username u)),
      (''email'', JStr (email u)), (''password'', JStr (password u))] @
     (case profilePicture u of None \<Rightarrow> [] | Some p \<Rightarrow> [(''profilePicture'', JStr p)]) @
     (case bio u of None \<Rightarrow> [] | Some t \<Rightarrow> [(''bio'', JStr t)]) @
     [(''createdAt'', JDate (user_createdAt u))]"

definition select_without :: "string \<Rightarrow> (string \<times> json) list \<Rightarrow> (string \<times> json) list" where
  "select_without field doc = filter (\<lambda>kv. fst kv \<noteq> field) doc"

definition current_user :: handler where
  "current_user env req s =
     (case req_user req of
        None \<Rightarrow> (server_error ''Internal error'', s)
      | Some decoded \<Rightarrow>
          (case User_findById (claims_id decoded) s of
             None \<Rightarrow> (\<lparr>status = 200, body = JNull\<rparr>, s)
           | Some usr \<Rightarrow>
               (\<lparr>status = 200, body = JObj (select_without ''password'' (user_document usr))\<rparr>, s)))"

definition get_me :: handler where
  "get_me = route [authenticate] current_user"

section \<open>server.js\<close>

subsection \<open>The book routes\<close>

definition book_json :: "book \<Rightarrow> json" where
  "book_json b =
     JObj ([(''_id'', JOid (book_id b)), (''title'', JStr (title b)),
            (''author'', JStr (author b)), (''description'', JStr (description b)),
            (''genre'', JStr (genre b))] @
           (case publishedDate b of None \<Rightarrow> [] | Some d \<Rightarrow> [(''publishedDate'', JDate d)]) @
           (case coverImage b of None \<Rightarrow> [] | Some c \<Rightarrow> [(''coverImage'', JStr c)]) @
           [(''rating'', JNumber (rating b)), (''reviewCount'', JInt (int (reviewCount b))),
            (''createdAt'', JDate (book_createdAt b)),
            (''updatedAt'', JDate (book_updatedAt b))])"

text \<open>
  \<open>Book.find(query).skip(skip).limit(limit).sort({ createdAt: -1 })\<close>: the database
  sorts first, then skips, then limits, whatever the order of the calls; it takes a skip
  that is a non-negative integer (of 64 bits) and rejects any other Number.
\<close>

definition Book_find_page ::
  "(book \<Rightarrow> bool) \<Rightarrow> number \<Rightarrow> nat \<Rightarrow> book list \<Rightarrow> string + book list" where
  "Book_find_page query skip limit bs =
     (case skip of
        Num k \<Rightarrow>
          if k < 0 then Inl ''Skip value must be non-negative''
          else if of_int \<lfloor>k\<rfloor> \<noteq> k \<or> 2 ^ 63 \<le> k then Inl ''Skip value must be an integer''
          else Inr (take limit (drop (nat \<lfloor>k\<rfloor>)
                      (sort_key (\<lambda>b. - int (book_createdAt b)) (filter query bs))))
      | _ \<Rightarrow> Inl ''Skip value must be an integer'')"

definition Book_countDocuments :: "(book \<Rightarrow> bool) \<Rightarrow> book list \<Rightarrow> nat" where
  "Book_countDocuments query bs = length (filter query bs)"

text \<open>
  The query object of the listing: \<open>$or\<close> of the two regular-expression tests when
  \<open>search\<close> is given, and the genre when one other than \<open>All\<close> is given.
\<close>

definition query_matches :: "(string \<Rightarrow> bool) option \<Rightarrow> string \<Rightarrow> book \<Rightarrow> bool" where
  "query_matches re genre' b =
     ((case re of
         None \<Rightarrow> True
       | Some test \<Rightarrow> test (title b) \<or> test (author b)) \<and>
      (if genre' \<noteq> [] \<and> genre' \<noteq> ''All'' then genre b = genre' else True))"

text \<open>
  The defaults of the destructuring apply to an absent parameter only: \<open>page\<close> is then
  the Number 1. \<open>search\<close> and \<open>genre\<close> are used for their truth value and as texts, so
  that an absent one and an empty one are the same.
\<close>

definition list_books :: handler where
  "list_books env req s =
     (let page = (case query_page req of
                    None \<Rightarrow> \<lparr>ToNumber = Num 1, parseInt = Num 1\<rparr>
                  | Some p \<Rightarrow> p);
          search = query_search req;
          genre' = query_genre req;
          limit = 9;
          skip = js_mul (js_sub (ToNumber page) (Num 1)) (Number_of_int (int limit))
      in case (if search \<noteq> [] then map_option Some (new_RegExp_i env search) else Some None) of
           None \<Rightarrow> (server_error ''Invalid regular expression'', s)
         | Some re \<Rightarrow>
             (let query = query_matches re genre'
              in case Book_find_page query skip limit (books s) of
                   Inl msg \<Rightarrow> (server_error msg, s)
                 | Inr found \<Rightarrow>
                     (let total' = Book_countDocuments query (books s)
                      in (\<lparr>status = 200,
                           body = JObj [(''books'', JArr (map book_json found)),
                                        (''totalPages'',
                                           JNumber (Math_ceil (js_div (Number_of_int (int total'))
                                                                 (Number_of_int (int limit))))),
                                        (''currentPage'', JNumber (parseInt page))]\<rparr>, s))))"

definition get_book :: handler where
  "get_book env req s =
     (case param_id req of
        None \<Rightarrow> (server_error ''Cast to ObjectId failed'', s)
      | Some i \<Rightarrow>
          (case Book_findById i s of
             None \<Rightarrow> (\<lparr>status = 404, body = error_json ''Book not found''\<rparr>, s)
           | Some b \<Rightarrow> (\<lparr>status = 200, body = book_json b\<rparr>, s)))"

subsection \<open>The application\<close>

text \<open>
  The two application-level middleware, \<open>cors()\<close> and \<open>express.json()\<close>, always call
  \<open>next()\<close>; then the routers are mounted.
\<close>

definition cors :: middleware where
  "cors env req s = Inr (req, s)"

definition express_json :: middleware where
  "express_json env req s = Inr (req, s)"

datatype endpoint =
    GET_books | GET_books_id
  | POST_reviews | PUT_reviews_id | DELETE_reviews_id
  | POST_auth_register | POST_auth_login | GET_auth_me

fun router :: "endpoint \<Rightarrow> handler" where
  "router GET_books = list_books"
| "router GET_books_id = get_book"
| "router POST_reviews = post_reviews"
| "router PUT_reviews_id = put_reviews"
| "router DELETE_reviews_id = delete_reviews"
| "router POST_auth_register = post_register"
| "router POST_auth_login = post_login"
| "router GET_auth_me = get_me"

definition app :: "endpoint \<Rightarrow> handler" where
  "app ep = route [cors, express_json] (router ep)"

text \<open>The endpoints whose route lists \<open>authenticate\<close>.\<close>

fun protected :: "endpoint \<Rightarrow> bool" where
  "protected POST_reviews = True"
| "protected PUT_reviews_id = True"
| "protected DELETE_reviews_id = True"
| "protected GET_auth_me = True"
| "protected _ = False"

text \<open>Requests handled one after the other, each on the store the previous one left.\<close>

fun serve :: "env \<Rightarrow> (endpoint \<times> request) list \<Rightarrow> store \<Rightarrow> response list \<times> store" where
  "serve env [] s = ([], s)"
| "serve env ((ep, req) # rest) s =
     (case app ep env req s of
        (resp, s1) \<Rightarrow> (case serve env rest s1 of (resps, s2) \<Rightarrow> (resp # resps, s2)))"

section \<open>The aggregate the specification names\<close>

text \<open>
  The specification's words, not the code's: the arithmetic mean of a list of ratings, as
  an exact rational. The handlers compute it in doubles, with \<^const>\<open>sum_ratings\<close> and
  \<^const>\<open>js_div\<close>; the theorems below compare the two.
\<close>

definition arithmetic_mean :: "int list \<Rightarrow> rat" where
  "arithmetic_mean xs = of_int (sum_list xs) / of_nat (length xs)"

section \<open>Example data\<close>

text \<open>
  A concrete environment and store on which the handlers are evaluated: two users with a
  session token each, one book with one review by the first user.
\<close>

definition alice_claims :: claims where
  "alice_claims = \<lparr>claims_id = 1, claims_username = ''alice''\<rparr>"

definition bob_claims :: claims where
  "bob_claims = \<lparr>claims_id = 2, claims_username = ''bob''\<rparr>"

definition example_env :: env where
  "example_env =
     \<lparr>jwt_sign = (\<lambda>c now. claims_username c @ ''.jwt''),
      jwt_verify = (\<lambda>tok now. if tok = ''alice.jwt'' then Some alice_claims
                                else if tok = ''bob.jwt'' then Some bob_claims else None),
      bcrypt_genSalt = (\<lambda>rounds. ''salt''),
      bcrypt_hash = (\<lambda>pw salt. salt @ ''$'' @ pw),
      bcrypt_compare = (\<lambda>pw hashed. hashed = ''salt$'' @ pw),
      isEmail = (\<lambda>e. CHR ''@'' \<in> set e),
      normalizeEmail = (\<lambda>e. e),
      new_RegExp_i = (\<lambda>pattern. if pattern = ''('' then None
                                   else Some (\<lambda>str. take (length pattern) str = pattern))\<rparr>"

definition alice :: user where
  "alice = \<lparr>user_id = 1, username = ''alice'', email = ''alice@example.com'',
            password = ''salt$wonderland1'', profilePicture = None, bio = None,
            user_createdAt = 100\<rparr>"

definition bob :: user where
  "bob = \<lparr>user_id = 2, username = ''bob'', email = ''bob@example.com'',
          password = ''salt$builder22'', profilePicture = None, bio = Some ''Reader'',
          user_createdAt = 200\<rparr>"

definition dune :: book where
  "dune = \<lparr>book_id = 10, title = ''Dune'', author = ''Frank Herbert'',
           description = ''Desert planet'', genre = ''Science Fiction'',
           publishedDate = None, coverImage = None, rating = Num 4, reviewCount = 1,
           book_createdAt = 300, book_updatedAt = 300\<rparr>"

definition alice_review :: review where
  "alice_review = \<lparr>review_id = 20, bookId = 10, userId = 1, review_rating = 4,
                   content = ''A classic of the genre'', review_createdAt = 400,
                   review_updatedAt = 400\<rparr>"

definition example_store :: store where
  "example_store =
     \<lparr>books = [dune], reviews = [alice_review], users = [alice, bob], next_oid = 21,
      authLimiter_hits = Map.empty, apiLimiter_hits = Map.empty\<rparr>"

text \<open>A request with no header, parameter or body field; the examples fill in what they send.\<close>

definition blank_request :: request where
  "blank_request =
     \<lparr>req_ip = ''203.0.113.7'', req_time = 1000, authorization = None, param_id = None,
      query_page = None, query_search = [], query_genre = [], body_bookId = None,
      body_rating = None, body_content = None, body_username = None, body_email = None,
      body_password = None, req_user = None, validation_errors = []\<rparr>"

section \<open>Rounding to a double\<close>

text \<open>
  \<^const>\<open>round_double\<close> gives a double within half a unit in the last place: the
  exponent found by \<^const>\<open>floor_log2\<close> brackets the number, a number in the normal
  range is rounded with a relative error of at most \<open>2 powi - 53\<close>, and an integer below
  \<open>2 ^ 53\<close> is a double.
\<close>

lemma round_half_even_of_int [simp]: "round_half_even (of_int k) = k"
  by (simp add: round_half_even_def)

lemma round_half_even_near: "\<bar>of_int (round_half_even x) - x\<bar> \<le> 1 / 2"
proof -
  have "of_int \<lfloor>x\<rfloor> \<le> x" "x < of_int \<lfloor>x\<rfloor> + 1" by linarith+
  then show ?thesis by (auto simp: round_half_even_def Let_def)
qed

lemma round_half_even_le: "x \<le> of_int n \<Longrightarrow> round_half_even x \<le> n"
proof -
  assume a: "x \<le> of_int n"
  show ?thesis
  proof (cases "x = of_int n")
    case True
    then show ?thesis by simp
  next
    case False
    with a have "x < of_int n" by simp
    then have "\<lfloor>x\<rfloor> < n" by (simp add: floor_less_iff)
    then have "\<lfloor>x\<rfloor> + 1 \<le> n" by simp
    then show ?thesis by (auto simp: round_half_even_def Let_def)
  qed
qed

lemma floor_log2_bounds:
  assumes "0 < q"
  shows "2 powi (floor_log2 q) \<le> q" and "q < 2 powi (floor_log2 q + 1)"
proof -
  have "2 powi (floor_log2 q) \<le> q \<and> q < 2 powi (floor_log2 q + 1)"
  proof (cases "1 \<le> q")
    case True
    let ?n = "nat \<lfloor>q\<rfloor>"
    from True have n: "0 < ?n" by simp
    let ?f = "floorlog 2 ?n"
    from floorlog_bounds [OF n, of 2] have b: "2 ^ (?f - 1) \<le> ?n" "?n < 2 ^ ?f" by simp_all
    from n have f1: "1 \<le> ?f" by (simp add: floorlog_def)
    have e: "floor_log2 q = int (?f - 1)" using True f1 by (simp add: floor_log2_def)
    have "(2::rat) ^ (?f - 1) \<le> of_nat ?n"
      using b(1) by (metis of_nat_le_iff of_nat_numeral of_nat_power)
    also have "\<dots> = of_int \<lfloor>q\<rfloor>" using True by simp
    also have "\<dots> \<le> q" by simp
    finally have lo: "(2::rat) ^ (?f - 1) \<le> q" .
    from b(2) have "Suc ?n \<le> 2 ^ ?f" by (rule Suc_leI)
    then have "(of_nat (Suc ?n) :: rat) \<le> 2 ^ ?f"
      by (metis of_nat_le_iff of_nat_numeral of_nat_power)
    moreover have "q < of_nat (Suc ?n)" using True by simp linarith
    ultimately have hi: "q < (2::rat) ^ ?f" by simp
    have e1: "floor_log2 q + 1 = int ?f" using e f1 by simp
    have "2 powi (floor_log2 q) = (2::rat) ^ (?f - 1)"
      by (simp only: e power_int_of_nat)
    moreover have "2 powi (floor_log2 q + 1) = (2::rat) ^ ?f"
      by (simp only: e1 power_int_of_nat)
    ultimately show ?thesis using lo hi by simp
  next
    case False
    with assms have q1: "q < 1" by simp
    let ?n = "nat \<lceil>1 / q\<rceil>"
    from assms q1 have "1 < 1 / q" by (simp add: field_simps)
    then have c2: "2 \<le> \<lceil>1 / q\<rceil>" by linarith
    then have n: "0 < ?n - 1" by simp
    let ?f = "floorlog 2 (?n - 1)"
    from floorlog_bounds [OF n, of 2] have b: "2 ^ (?f - 1) \<le> ?n - 1" "?n - 1 < 2 ^ ?f" by simp_all
    from n have f1: "1 \<le> ?f" by (simp add: floorlog_def)
    have e: "floor_log2 q = - int ?f" using False by (simp add: floor_log2_def)
    from b(2) have "Suc (?n - 1) \<le> 2 ^ ?f" by (rule Suc_leI)
    moreover have "Suc (?n - 1) = ?n" using n by arith
    ultimately have nf: "?n \<le> 2 ^ ?f" by (simp only:)
    have "1 / q \<le> of_int \<lceil>1 / q\<rceil>" by simp
    also have "of_int \<lceil>1 / q\<rceil> = (of_nat ?n :: rat)" using c2 by simp
    also have "(of_nat ?n :: rat) \<le> 2 ^ ?f"
      using nf by (metis of_nat_le_iff of_nat_numeral of_nat_power)
    finally have "1 / q \<le> 2 ^ ?f" .
    then have lo: "1 / 2 ^ ?f \<le> q" using assms by (simp add: field_simps)
    have "(2::rat) ^ (?f - 1) \<le> of_nat (?n - 1)"
      using b(1) by (metis of_nat_le_iff of_nat_numeral of_nat_power)
    also have "(of_nat (?n - 1) :: rat) = of_int (\<lceil>1 / q\<rceil> - 1)"
    proof -
      have i: "int (?n - 1) = \<lceil>1 / q\<rceil> - 1" using c2 by arith
      have "(of_nat (?n - 1) :: rat) = of_int (int (?n - 1))" by (simp only: of_int_of_nat_eq)
      then show ?thesis by (simp only: i)
    qed
    also have "(of_int (\<lceil>1 / q\<rceil> - 1) :: rat) < 1 / q" by linarith
    finally have "(2::rat) ^ (?f - 1) < 1 / q" .
    then have hi: "q < 1 / 2 ^ (?f - 1)" using assms by (simp add: field_simps)
    have "2 powi (- int ?f) = (1::rat) / 2 ^ ?f"
      by (simp add: power_int_minus_divide)
    moreover have "2 powi (- int ?f + 1) = (1::rat) / 2 ^ (?f - 1)"
    proof -
      have "- int ?f + 1 = - int (?f - 1)" using f1 by simp
      then show ?thesis by (simp only: power_int_minus_divide power_int_of_nat)
    qed
    ultimately show ?thesis using lo hi by (simp only: e)
  qed
  then show "2 powi (floor_log2 q) \<le> q" and "q < 2 powi (floor_log2 q + 1)" by simp_all
qed


lemma powi_split: "(2::rat) powi (a + int k) = 2 powi a * 2 ^ k"
  by (simp add: power_int_add)

lemma powi_less_cancel:
  assumes "(2::rat) powi m < 2 powi n"
  shows "m < n"
proof (rule ccontr)
  assume "\<not> m < n"
  then have "n \<le> m" by simp
  then have "(2::rat) powi n \<le> 2 powi m" by (rule power_int_increasing) simp
  with assms show False by simp
qed

lemma floor_log2_eqI:
  assumes lo: "2 powi e \<le> q" and hi: "q < 2 powi (e + 1)"
  shows "floor_log2 q = e"
proof -
  have "(0::rat) < 2 powi e" by (rule zero_less_power_int) simp
  from this lo have q: "0 < q" by (rule less_le_trans)
  note b = floor_log2_bounds [OF q]
  from b(1) hi have "(2::rat) powi (floor_log2 q) < 2 powi (e + 1)" by (rule le_less_trans)
  then have "floor_log2 q < e + 1" by (rule powi_less_cancel)
  moreover from lo b(2) have "(2::rat) powi e < 2 powi (floor_log2 q + 1)" by (rule le_less_trans)
  then have "e < floor_log2 q + 1" by (rule powi_less_cancel)
  ultimately show ?thesis by simp
qed

lemma round_double_normal:
  assumes lo: "2 powi e \<le> q" and hi: "q < 2 powi (e + 1)"
    and e1: "- 1022 \<le> e" and e2: "e < 1023"
  shows "round_double q = Num (of_int (round_half_even (q / 2 powi (e - 52))) * 2 powi (e - 52))"
proof -
  let ?ulp = "(2::rat) powi (e - 52)"
  have u: "0 < ?ulp" by (rule zero_less_power_int) simp
  have "(0::rat) < 2 powi e" by (rule zero_less_power_int) simp
  from this lo have q: "0 < q" by (rule less_le_trans)
  have f: "floor_log2 \<bar>q\<bar> = e" using q floor_log2_eqI [OF lo hi] by simp
  have m: "max e (- 1022) = e" using e1 by simp
  have "e + 1 = (e - 52) + int 53" by simp
  then have "(2::rat) powi (e + 1) = 2 powi ((e - 52) + int 53)" by (simp only:)
  also have "\<dots> = ?ulp * 2 ^ 53" by (rule powi_split)
  finally have split: "(2::rat) powi (e + 1) = ?ulp * 2 ^ 53" .
  have "q / ?ulp \<le> 2 ^ 53" using hi u unfolding split by (simp add: field_simps)
  then have "q / ?ulp \<le> of_int (2 ^ 53)" by simp
  then have "round_half_even (q / ?ulp) \<le> 2 ^ 53" by (rule round_half_even_le)
  then have "(of_int (round_half_even (q / ?ulp)) :: rat) \<le> of_int (2 ^ 53)"
    by (simp only: of_int_le_iff)
  then have "(of_int (round_half_even (q / ?ulp)) :: rat) \<le> 2 ^ 53" by simp
  then have "of_int (round_half_even (q / ?ulp)) * ?ulp \<le> 2 ^ 53 * ?ulp"
    using u by (simp only: mult_le_cancel_right_pos)
  also have "\<dots> = 2 powi (e + 1)" unfolding split by simp
  also have "\<dots> \<le> 2 powi 1023" using e2 by (intro power_int_increasing) simp_all
  also have "\<dots> < (2::rat) powi 1024" by (rule power_int_strict_increasing) simp_all
  finally have d: "\<not> 2 powi 1024 \<le> of_int (round_half_even (q / ?ulp)) * ?ulp" by simp
  show ?thesis
    unfolding round_double_def Let_def f m using q d by simp
qed

lemma round_double_near:
  assumes lo: "2 powi (- 1022) \<le> q" and hi: "q < 2 powi 1023"
  shows "\<exists>d. round_double q = Num d \<and> \<bar>d - q\<bar> \<le> q / 2 ^ 53"
proof -
  have "(0::rat) < 2 powi (- 1022)" by (rule zero_less_power_int) simp
  from this lo have q: "0 < q" by (rule less_le_trans)
  let ?e = "floor_log2 q"
  note b = floor_log2_bounds [OF q]
  from lo b(2) have "(2::rat) powi (- 1022) < 2 powi (?e + 1)" by (rule le_less_trans)
  then have "- 1022 < ?e + 1" by (rule powi_less_cancel)
  then have e1: "- 1022 \<le> ?e" by simp
  from b(1) hi have "(2::rat) powi ?e < 2 powi 1023" by (rule le_less_trans)
  then have e2: "?e < 1023" by (rule powi_less_cancel)
  let ?ulp = "(2::rat) powi (?e - 52)"
  let ?x = "q / ?ulp"
  let ?d = "of_int (round_half_even ?x) * ?ulp"
  have u: "0 < ?ulp" by (rule zero_less_power_int) simp
  have r: "round_double q = Num ?d" by (rule round_double_normal [OF b e1 e2])
  have "?d - q = (of_int (round_half_even ?x) - ?x) * ?ulp" using u by (simp add: field_simps)
  then have "\<bar>?d - q\<bar> = \<bar>of_int (round_half_even ?x) - ?x\<bar> * ?ulp"
    using u by (simp add: abs_mult)
  also have "\<dots> \<le> 1 / 2 * ?ulp"
    using round_half_even_near [of ?x] u by (simp only: mult_le_cancel_right_pos)
  also have "1 / 2 * ?ulp = 2 powi ?e / 2 ^ 53"
  proof -
    have "?e = (?e - 52) + int 52" by simp
    then have "(2::rat) powi ?e = 2 powi ((?e - 52) + int 52)" by (simp only:)
    also have "\<dots> = ?ulp * 2 ^ 52" by (rule powi_split)
    finally show ?thesis by simp
  qed
  also have "\<dots> \<le> q / 2 ^ 53" using b(1) by (simp add: divide_right_mono)
  finally show ?thesis using r by blast
qed

lemma round_double_int:
  assumes "0 \<le> n" and "n < 2 ^ 53"
  shows "round_double (of_int n) = Num (of_int n)"
proof (cases "n = 0")
  case True
  then show ?thesis by (simp add: round_double_def)
next
  case False
  with assms have n: "1 \<le> n" by simp
  let ?q = "of_int n :: rat"
  have q: "0 < ?q" using n by simp
  let ?e = "floor_log2 ?q"
  note b = floor_log2_bounds [OF q]
  have "(2::rat) powi 0 \<le> ?q" using n by simp
  from this b(2) have "(2::rat) powi 0 < 2 powi (?e + 1)" by (rule le_less_trans)
  then have "0 < ?e + 1" by (rule powi_less_cancel)
  then have e0: "0 \<le> ?e" by simp
  have "?q < of_int (2 ^ 53)" using assms(2) by (simp only: of_int_less_iff)
  then have "?q < 2 powi 53" by simp
  with b(1) have "(2::rat) powi ?e < 2 powi 53" by (rule le_less_trans)
  then have e53: "?e < 53" by (rule powi_less_cancel)
  define k where "k = nat (52 - ?e)"
  have ek: "?e - 52 = - int k" using e53 by (simp add: k_def)
  have ulp: "(2::rat) powi (?e - 52) = 1 / 2 ^ k"
    by (simp only: ek power_int_minus_divide power_int_of_nat)
  have "?q * 2 ^ k = of_int (n * 2 ^ k)" by simp
  then have rh: "round_half_even (?q * 2 ^ k) = n * 2 ^ k"
    by (simp only: round_half_even_of_int)
  have "round_double ?q = Num (of_int (round_half_even (?q / 2 powi (?e - 52))) * 2 powi (?e - 52))"
    by (rule round_double_normal [OF b]) (use e0 e53 in simp_all)
  also have "\<dots> = Num ?q" unfolding ulp by (simp add: rh)
  finally show ?thesis .
qed


lemma round_double_minus: "round_double (- q) = js_neg (round_double q)"
  by (cases "q = 0"; cases "0 < q") (simp_all add: round_double_def Let_def)

lemma Number_of_int_exact: "0 \<le> n \<Longrightarrow> n < 2 ^ 53 \<Longrightarrow> Number_of_int n = Num (of_int n)"
  by (simp add: Number_of_int_def round_double_int)

lemma js_add_int:
  assumes "0 \<le> a" "0 \<le> b" "a + b < 2 ^ 53"
  shows "js_add (Num (of_int a)) (Num (of_int b)) = Num (of_int (a + b))"
proof -
  have "round_double (of_int (a + b)) = Num (of_int (a + b))"
    using assms by (intro round_double_int) simp_all
  then show ?thesis by simp
qed

lemma js_sub_int:
  assumes "0 \<le> b" "b \<le> a" "a < 2 ^ 53"
  shows "js_sub (Num (of_int a)) (Num (of_int b)) = Num (of_int (a - b))"
proof -
  have "round_double (of_int (a - b)) = Num (of_int (a - b))"
    using assms by (intro round_double_int) simp_all
  then show ?thesis by (simp add: js_sub_def)
qed

lemma js_mul_int:
  assumes "0 \<le> a * b" "a * b < 2 ^ 53"
  shows "js_mul (Num (of_int a)) (Num (of_int b)) = Num (of_int (a * b))"
proof -
  have "round_double (of_int (a * b)) = Num (of_int (a * b))"
    using assms by (intro round_double_int) simp_all
  then show ?thesis by simp
qed

lemma powi_min_normal_le: "(2::rat) powi (- 1022) \<le> 1 / 9"
proof -
  have "(2::rat) powi (- 1022) \<le> 2 powi (- 4)" by (rule power_int_increasing) simp_all
  also have "\<dots> \<le> 1 / 9" by (simp add: power_int_minus_divide)
  finally show ?thesis .
qed

lemma Math_ceil_div_9:
  assumes "n < 2 ^ 53"
  shows "Math_ceil (js_div (Number_of_int (int n)) (Num 9)) = Num (of_int \<lceil>(of_nat n :: rat) / 9\<rceil>)"
proof -
  have N: "Number_of_int (int n) = Num (of_nat n)"
    using assms Number_of_int_exact [of "int n"] by simp
  let ?q = "(of_nat n :: rat) / 9"
  have d: "js_div (Number_of_int (int n)) (Num 9) = round_double ?q" by (simp add: N)
  define k where "k = int n div 9"
  define r where "r = int n mod 9"
  have "int n = 9 * k + r" by (simp add: k_def r_def)
  then have "(of_int (int n) :: rat) = of_int (9 * k + r)" by (simp only:)
  then have qk: "?q = of_int k + of_int r / 9" by simp
  have r: "0 \<le> r" "r < 9" by (simp_all add: r_def)
  have k: "0 \<le> k" by (simp add: k_def)
  have kn: "k \<le> int n" by (simp add: k_def zdiv_int [symmetric])
  show ?thesis
  proof (cases "r = 0")
    case True
    have "k < 2 ^ 53" using kn assms by simp
    then have "round_double (of_int k) = Num (of_int k)" using k by (intro round_double_int)
    then show ?thesis unfolding d qk True by simp
  next
    case False
    with r have r1: "1 \<le> r" "r \<le> 8" by simp_all
    then have rr: "(1::rat) \<le> of_int r" "(of_int r :: rat) \<le> 8"
      by (simp_all only: of_int_le_iff [symmetric, where ?'a = rat] of_int_1 of_int_numeral)
    have c: "\<lceil>?q\<rceil> = k + 1"
      unfolding qk using rr by (intro ceiling_unique) simp_all
    have n0: "0 < n" using False by (cases "n = 0") (simp_all add: r_def)
    then have "(1::rat) \<le> of_nat n" by simp
    then have q9: "1 / 9 \<le> ?q" by simp
    with powi_min_normal_le have lo: "2 powi (- 1022) \<le> ?q" by (rule order_trans)
    have "(of_nat n :: rat) < of_nat (2 ^ 53)" using assms by (simp only: of_nat_less_iff)
    then have n53: "(of_nat n :: rat) < 2 ^ 53" by simp
    then have "?q < 2 ^ 53" by simp
    also have "\<dots> = (2::rat) powi 53" by simp
    also have "\<dots> < 2 powi 1023" by (rule power_int_strict_increasing) simp_all
    finally have hi: "?q < 2 powi 1023" .
    from round_double_near [OF lo hi] obtain x where
      x: "round_double ?q = Num x" and near: "\<bar>x - ?q\<bar> \<le> ?q / 2 ^ 53"
      by blast
    have "?q / 2 ^ 53 < 1 / 9" using n53 by simp
    with near have e: "\<bar>x - ?q\<bar> < 1 / 9" by simp
    have "of_int k + 1 / 9 \<le> ?q" "?q \<le> of_int k + 8 / 9"
      unfolding qk using rr by simp_all
    with e have "of_int k < x" "x < of_int k + 1" by linarith+
    then have "\<lceil>x\<rceil> = k + 1" by (intro ceiling_unique) simp_all
    with c show ?thesis unfolding d x by simp
  qed
qed

lemma round_double_example_exact: "round_double (9 / 2) = Num (9 / 2)"
proof -
  have "round_double (9 / 2) = Num (of_int (round_half_even ((9 / 2) / 2 powi (2 - 52))) * 2 powi (2 - 52))"
    by (rule round_double_normal) simp_all
  also have "\<dots> = Num (9 / 2)"
    by (simp add: round_half_even_def Let_def power_int_minus_divide)
  finally show ?thesis .
qed

lemma round_double_example_rounded:
  "round_double (4 / 3) = Num (6004799503160661 / 4503599627370496)"
proof -
  have "round_double (4 / 3) = Num (of_int (round_half_even ((4 / 3) / 2 powi (0 - 52))) * 2 powi (0 - 52))"
    by (rule round_double_normal) simp_all
  also have "\<dots> = Num (6004799503160661 / 4503599627370496)"
  proof -
    have fl: "\<lfloor>(18014398509481984::rat) / 3\<rfloor> = 6004799503160661"
      by (rule floor_unique) simp_all
    have "round_half_even (18014398509481984 / 3) = 6004799503160661"
      by (simp add: round_half_even_def Let_def fl)
    then show ?thesis by (simp add: power_int_minus_divide)
  qed
  finally show ?thesis .
qed

section \<open>Facts about the store operations and the middleware\<close>

lemma find_update_first:
  "(\<And>x. P x \<Longrightarrow> P (f x)) \<Longrightarrow> find P (update_first P f xs) = map_option f (find P xs)"
  by (induction xs) auto

lemma find_distinct_key:
  "distinct (map k xs) \<Longrightarrow> r \<in> set xs \<Longrightarrow> Q r \<Longrightarrow>
   find (\<lambda>x. k x = k r \<and> Q x) xs = Some r"
  by (induction xs) (auto simp: image_iff)

lemma set_remove_first: "set (remove_first P xs) \<subseteq> set xs"
  by (induction xs) auto

lemma remove_first_distinct_key:
  "distinct (map k xs) \<Longrightarrow> x \<in> set (remove_first (\<lambda>y. k y = i) xs) \<Longrightarrow> k x \<noteq> i"
  by (induction xs) (auto simp: image_iff split: if_splits)

lemma Book_findById_update:
  "Book_findById b (Book_findByIdAndUpdate b f s) = map_option f (Book_findById b s)"
  if "\<And>x. book_id (f x) = book_id x"
  using that by (simp add: Book_findById_def Book_findByIdAndUpdate_def find_update_first)

lemma Review_find_bookId_update [simp]:
  "Review_find_bookId b (Book_findByIdAndUpdate i f s) = Review_find_bookId b s"
  by (simp add: Review_find_bookId_def Book_findByIdAndUpdate_def)

lemmas example_defs =
  example_env_def example_store_def blank_request_def alice_claims_def bob_claims_def
  alice_def bob_def dune_def alice_review_def

lemmas middleware_defs =
  authenticate_def startsWith_def at_index_def reviewValidation_def validate_def
  review_rating_errors_def review_content_errors_def trim_def is_space_def isInt_def

lemmas store_defs =
  Book_findById_def User_findById_def Review_find_bookId_def Review_findOne_id_userId_def
  Review_findOne_bookId_userId_def Book_findByIdAndUpdate_def

lemma authenticate_Inr:
  "authenticate env req s = Inr (req', s') \<Longrightarrow>
   s' = s \<and> (\<exists>decoded. req' = req\<lparr>req_user := Some decoded\<rparr>)"
  by (auto simp: authenticate_def split: option.splits if_splits)

lemma authenticate_Inl:
  "authenticate env req s = Inl (resp, s') \<Longrightarrow> s' = s \<and> status resp = 401"
  by (auto simp: authenticate_def split: option.splits if_splits)

lemma authenticate_Inr_usr:
  assumes "authenticate env req s = Inr b"
  obtains decoded where "authenticate env req s = Inr (req\<lparr>req_user := Some decoded\<rparr>, s)"
proof -
  obtain req1 s1 where b: "b = (req1, s1)" by (cases b)
  from authenticate_Inr [of env req s req1 s1] assms b
  have "s1 = s \<and> (\<exists>decoded. req1 = req\<lparr>req_user := Some decoded\<rparr>)" by simp
  then obtain decoded where "s1 = s" "req1 = req\<lparr>req_user := Some decoded\<rparr>" by blast
  with assms b that show thesis by simp
qed

lemma route_authenticate_Inl:
  "authenticate env req s = Inl a \<Longrightarrow> route (authenticate # ms) h env req s = a"
  by simp

lemma route_authenticate_Inr:
  "authenticate env req s = Inr (req', s') \<Longrightarrow>
   route (authenticate # ms) h env req s = route ms h env req' s'"
  by simp

lemma route_review_validation:
  "route [reviewValidation, validate] h env req s =
     (if validation_errors req @ review_rating_errors req @ review_content_errors req = []
      then h env (req\<lparr>body_content := map_option trim (body_content req),
                      validation_errors := []\<rparr>) s
      else (\<lparr>status = 400,
             body = JObj [(''errors'', JArr (map validation_error_json
                      (validation_errors req @ review_rating_errors req
                         @ review_content_errors req)))]\<rparr>, s))"
  by (simp add: reviewValidation_def validate_def)


lemma route_review_validation_ok:
  "validation_errors req @ review_rating_errors req @ review_content_errors req = [] \<Longrightarrow>
   route [reviewValidation, validate] h env req s =
     h env (req\<lparr>body_content := map_option trim (body_content req),
                 validation_errors := []\<rparr>) s"
  unfolding route_review_validation by simp

lemma route_review_validation_bad:
  "validation_errors req @ review_rating_errors req @ review_content_errors req \<noteq> [] \<Longrightarrow>
   route [reviewValidation, validate] h env req s =
     (\<lparr>status = 400,
       body = JObj [(''errors'', JArr (map validation_error_json
                (validation_errors req @ review_rating_errors req
                   @ review_content_errors req)))]\<rparr>, s)"
  by (simp only: route_review_validation if_False)

lemma review_errors_req_user [simp]:
  "review_rating_errors (req\<lparr>req_user := u\<rparr>) = review_rating_errors req"
  "review_content_errors (req\<lparr>req_user := u\<rparr>) = review_content_errors req"
  by (simp_all add: review_rating_errors_def review_content_errors_def)

lemma review_route_cases:
  assumes run: "route [authenticate, reviewValidation, validate] h env req s = (resp, s')"
  obtains
    (unauthenticated) a where "authenticate env req s = Inl a" "status resp = 401" "s' = s"
  | (invalid) decoded where
      "authenticate env req s = Inr (req\<lparr>req_user := Some decoded\<rparr>, s)"
      "validation_errors req @ review_rating_errors req @ review_content_errors req \<noteq> []"
      "resp = \<lparr>status = 400,
               body = JObj [(''errors'', JArr (map validation_error_json
                        (validation_errors req @ review_rating_errors req
                           @ review_content_errors req)))]\<rparr>"
      "s' = s"
  | (handled) decoded where
      "authenticate env req s = Inr (req\<lparr>req_user := Some decoded\<rparr>, s)"
      "validation_errors req @ review_rating_errors req @ review_content_errors req = []"
      "h env (req\<lparr>req_user := Some decoded,
                   body_content := map_option trim (body_content req),
                   validation_errors := []\<rparr>) s = (resp, s')"
proof (cases "authenticate env req s")
  case (Inl a)
  with run have "a = (resp, s')" by simp
  with Inl authenticate_Inl [of env req s resp s'] unauthenticated show thesis by simp
next
  case (Inr b)
  then obtain decoded where
    a: "authenticate env req s = Inr (req\<lparr>req_user := Some decoded\<rparr>, s)"
    by (rule authenticate_Inr_usr)
  let ?req1 = "req\<lparr>req_user := Some decoded\<rparr>"
  from run a have r: "route [reviewValidation, validate] h env ?req1 s = (resp, s')"
    by (simp only: route_authenticate_Inr)
  have e: "validation_errors ?req1 @ review_rating_errors ?req1 @ review_content_errors ?req1
         = validation_errors req @ review_rating_errors req @ review_content_errors req"
    by simp
  show thesis
  proof (cases "validation_errors req @ review_rating_errors req @ review_content_errors req = []")
    case True
    then have "validation_errors ?req1 @ review_rating_errors ?req1
                 @ review_content_errors ?req1 = []"
      by (simp only: e)
    from route_review_validation_ok [OF this, of h env s] r
    have "h env (?req1\<lparr>body_content := map_option trim (body_content ?req1),
                   validation_errors := []\<rparr>) s = (resp, s')"
      by (simp only:)
    then have "h env (req\<lparr>req_user := Some decoded,
                   body_content := map_option trim (body_content req),
                   validation_errors := []\<rparr>) s = (resp, s')"
      by simp
    with a True show thesis by (rule handled)
  next
    case False
    then have "validation_errors ?req1 @ review_rating_errors ?req1
                 @ review_content_errors ?req1 \<noteq> []"
      by (simp only: e not_False_eq_True)
    from route_review_validation_bad [OF this, of h env s] r
    have "(\<lparr>status = 400,
             body = JObj [(''errors'', JArr (map validation_error_json
                      (validation_errors ?req1 @ review_rating_errors ?req1
                         @ review_content_errors ?req1)))]\<rparr>, s) = (resp, s')"
      by (simp only:)
    then have "resp = \<lparr>status = 400,
               body = JObj [(''errors'', JArr (map validation_error_json
                        (validation_errors req @ review_rating_errors req
                           @ review_content_errors req)))]\<rparr>" "s' = s"
      unfolding e by simp_all
    with a False show thesis by (rule invalid)
  qed
qed

section \<open>Review aggregation\<close>

text \<open>
  With ratings within the range of the schema (1 to 5) and an array of at most \<open>2 ^ 32\<close>
  reviews, every partial sum of the \<open>reduce\<close> is an integer below \<open>2 ^ 53\<close>, so the sum is
  exact; the one rounding is that of the division.
\<close>

lemma foldl_js_add_exact:
  assumes "\<forall>r\<in>set rs. 1 \<le> review_rating r \<and> review_rating r \<le> 5"
    and "0 \<le> a" and "a + 5 * int (length rs) < 2 ^ 53"
  shows "foldl (\<lambda>acc review. js_add acc (Number_of_int (review_rating review))) (Num (of_int a)) rs
       = Num (of_int (a + sum_list (map review_rating rs)))"
  using assms
proof (induction rs arbitrary: a)
  case Nil
  show ?case by simp
next
  case (Cons r rs)
  let ?step = "\<lambda>acc review. js_add acc (Number_of_int (review_rating review))"
  from Cons.prems have r: "1 \<le> review_rating r" "review_rating r \<le> 5" by simp_all
  have N: "Number_of_int (review_rating r) = Num (of_int (review_rating r))"
    using r by (intro Number_of_int_exact) simp_all
  have A: "js_add (Num (of_int a)) (Num (of_int (review_rating r)))
         = Num (of_int (a + review_rating r))"
    using Cons.prems r by (intro js_add_int) simp_all
  have "foldl ?step (Num (of_int a)) (r # rs) = foldl ?step (Num (of_int (a + review_rating r))) rs"
    by (simp only: foldl_Cons N A)
  also have "\<dots> = Num (of_int ((a + review_rating r) + sum_list (map review_rating rs)))"
    using Cons.prems r by (intro Cons.IH) simp_all
  finally show ?case by (simp add: add.assoc)
qed

lemma sum_ratings_exact:
  assumes "\<forall>r\<in>set rs. 1 \<le> review_rating r \<and> review_rating r \<le> 5"
    and "length rs \<le> 2 ^ 32"
  shows "sum_ratings rs = Num (of_int (sum_list (map review_rating rs)))"
proof -
  from assms(2) have "int (length rs) \<le> int (2 ^ 32)" by (simp only: of_nat_le_iff)
  then have "int (length rs) \<le> 2 ^ 32" by simp
  then have "0 + 5 * int (length rs) < 2 ^ 53" by simp
  from foldl_js_add_exact [OF assms(1) order_refl this] show ?thesis
    by (simp add: sum_ratings_def)
qed

lemma sum_list_ratings_bounds:
  assumes "\<forall>r\<in>set rs. 1 \<le> review_rating r \<and> review_rating r \<le> 5"
  shows "int (length rs) \<le> sum_list (map review_rating rs)"
    and "sum_list (map review_rating rs) \<le> 5 * int (length rs)"
  using assms by (induction rs) auto

lemma mean_ratings_bounds:
  assumes "rs \<noteq> []" and "\<forall>r\<in>set rs. 1 \<le> review_rating r \<and> review_rating r \<le> 5"
  shows "1 \<le> arithmetic_mean (map review_rating rs)"
    and "arithmetic_mean (map review_rating rs) \<le> 5"
proof -
  let ?S = "sum_list (map review_rating rs)"
  from assms(1) have n: "(0::rat) < of_nat (length rs)" by simp
  note b = sum_list_ratings_bounds [OF assms(2)]
  from b(1) have "(of_int (int (length rs)) :: rat) \<le> of_int ?S" by (simp only: of_int_le_iff)
  then have "(of_nat (length rs) :: rat) \<le> of_int ?S" by simp
  then show "1 \<le> arithmetic_mean (map review_rating rs)"
    using n by (simp add: arithmetic_mean_def le_divide_eq)
  from b(2) have "(of_int ?S :: rat) \<le> of_int (5 * int (length rs))" by (simp only: of_int_le_iff)
  then have "(of_int ?S :: rat) \<le> 5 * of_nat (length rs)" by simp
  then show "arithmetic_mean (map review_rating rs) \<le> 5"
    using n by (simp add: arithmetic_mean_def divide_le_eq)
qed

text \<open>The average the handlers store is the mean of the ratings, rounded once.\<close>

lemma average_rating:
  assumes "rs \<noteq> []" and "\<forall>r\<in>set rs. 1 \<le> review_rating r \<and> review_rating r \<le> 5"
    and "length rs \<le> 2 ^ 32"
  shows "js_div (sum_ratings rs) (Number_of_int (int (length rs)))
       = round_double (arithmetic_mean (map review_rating rs))"
proof -
  from assms(3) have "int (length rs) \<le> int (2 ^ 32)" by (simp only: of_nat_le_iff)
  then have "int (length rs) \<le> 2 ^ 32" by simp
  then have "int (length rs) < 2 ^ 53" by simp
  then have N: "Number_of_int (int (length rs)) = Num (of_int (int (length rs)))"
    by (intro Number_of_int_exact) simp_all
  from assms(1) have "(of_int (int (length rs)) :: rat) \<noteq> 0" by simp
  then show ?thesis
    unfolding N sum_ratings_exact [OF assms(2,3)] by (simp add: arithmetic_mean_def)
qed

lemma round_double_mean_near:
  assumes "1 \<le> q" and "q \<le> 5"
  shows "\<exists>d. round_double q = Num d \<and> \<bar>d - q\<bar> \<le> q / 2 ^ 53"
proof (rule round_double_near)
  have "(2::rat) powi (- 1022) \<le> 2 powi 0" by (rule power_int_increasing) simp_all
  with assms(1) show "2 powi (- 1022) \<le> q" by simp
  have "q < 2 powi 3" using assms(2) by simp
  also have "(2::rat) powi 3 \<le> 2 powi 1023" by (rule power_int_increasing) simp_all
  finally show "q < 2 powi 1023" .
qed

text \<open>Rounding is visible: the mean of the ratings 1, 1 and 2 is stored as a double next to \<open>4 / 3\<close>.\<close>

lemma average_rating_rounded:
  "js_div (sum_ratings [r\<lparr>review_rating := 1\<rparr>, r\<lparr>review_rating := 1\<rparr>, r\<lparr>review_rating := 2\<rparr>])
     (Number_of_int 3) = Num (6004799503160661 / 4503599627370496)"
proof -
  let ?rs = "[r\<lparr>review_rating := 1\<rparr>, r\<lparr>review_rating := 1\<rparr>, r\<lparr>review_rating := 2\<rparr>]"
  have "js_div (sum_ratings ?rs) (Number_of_int (int (length ?rs)))
      = round_double (arithmetic_mean (map review_rating ?rs))"
    by (rule average_rating) simp_all
  then show ?thesis by (simp add: arithmetic_mean_def round_double_example_rounded)
qed

text \<open>Evaluating the Numbers of the examples.\<close>

lemma round_double_numeral:
  "(numeral k :: int) < 2 ^ 53 \<Longrightarrow> round_double (numeral k) = Num (numeral k)"
  using round_double_int [of "numeral k"] by simp

lemma round_double_0_1: "round_double 0 = Num 0" "round_double 1 = Num 1"
  using round_double_int [of 0] round_double_int [of 1] by simp_all

lemmas number_simps =
  Number_of_int_def round_double_numeral round_double_0_1 round_double_example_exact js_sub_def

lemma Review_create_Inr:
  "Review_create b u r c now s = Inr (doc, s1) \<Longrightarrow>
   reviews s1 = reviews s @ [doc] \<and> books s1 = books s \<and> users s1 = users s
   \<and> bookId doc = b \<and> userId doc = u \<and> r = Some (review_rating doc) \<and> c = Some (content doc)
   \<and> 1 \<le> review_rating doc \<and> review_rating doc \<le> 5"
  by (auto simp: Review_create_def Let_def split: option.splits if_splits)

lemma create_review_201:
  assumes run: "create_review env req s = (resp, s')" and created: "status resp = 201"
    and b: "body_bookId req = Some b"
  shows "(\<exists>doc. reviews s' = reviews s @ [doc] \<and> bookId doc = b
                \<and> body_rating req = Some (review_rating doc)
                \<and> 1 \<le> review_rating doc \<and> review_rating doc \<le> 5)
       \<and> Book_findById b s' =
           map_option (\<lambda>bk. bk\<lparr>rating := js_div (sum_ratings (Review_find_bookId b s'))
                                             (Number_of_int (int (length (Review_find_bookId b s')))),
                                  reviewCount := length (Review_find_bookId b s')\<rparr>)
             (Book_findById b s)"
proof -
  obtain usr where u: "req_user req = Some usr"
    using run created b
    by (cases "req_user req") (auto simp: create_review_def server_error_def)
  have nf: "Review_findOne_bookId_userId b (claims_id usr) s = None"
    using run created b u
    by (cases "Review_findOne_bookId_userId b (claims_id usr) s")
      (auto simp: create_review_def)
  obtain doc s1 where
    rc: "Review_create b (claims_id usr) (body_rating req) (body_content req) (req_time req) s
               = Inr (doc, s1)"
    using run created b u nf
    by (cases "Review_create b (claims_id usr) (body_rating req) (body_content req) (req_time req) s")
      (auto simp: create_review_def server_error_def)
  note facts = Review_create_Inr [OF rc]
  let ?f = "\<lambda>bk. bk\<lparr>rating := js_div (sum_ratings (Review_find_bookId b s1))
                                             (Number_of_int (int (length (Review_find_bookId b s1)))),
                                  reviewCount := length (Review_find_bookId b s1)\<rparr>"
  from run b u nf rc have s': "s' = Book_findByIdAndUpdate b ?f s1"
    by (simp add: create_review_def Let_def)
  have r: "reviews s' = reviews s1" "Review_find_bookId b s' = Review_find_bookId b s1"
    by (simp_all add: s' Book_findByIdAndUpdate_def Review_find_bookId_def)
  have "Book_findById b s' = map_option ?f (Book_findById b s1)"
    unfolding s' by (rule Book_findById_update) simp
  moreover have "Book_findById b s1 = Book_findById b s"
    using facts by (simp add: Book_findById_def)
  ultimately show ?thesis using facts r by simp
qed

text \<open>
  C1. When \<open>POST /api/reviews\<close> answers 201, the new review has been appended to the
  reviews (with the book id and the rating of the request), and the book the request
  names, if it is stored, has \<open>reviewCount\<close> equal to the number of the reviews of that
  book now stored, the new one included, and \<open>rating\<close> equal to the arithmetic mean of
  their ratings as a Number holds it: the double nearest to the mean, which differs from
  it by at most the fraction \<open>1 / 2 ^ 53\<close> of the mean (the floating-point tolerance of
  the specification). The reviews of the book are those with its \<open>bookId\<close>, the book is
  the first document with that \<open>_id\<close>. The stored ratings are within the range of the
  schema, 1 to 5, and there are fewer than \<open>2 ^ 32\<close> reviews (the bound of an array).
\<close>

theorem create_review_recomputes_book:
  assumes run: "post_reviews env req s = (resp, s')" and created: "status resp = 201"
    and bk: "find (\<lambda>x. book_id x = b) (books s') = Some bk"
    and b: "body_bookId req = Some b"
    and range: "\<forall>r\<in>set (reviews s). 1 \<le> review_rating r \<and> review_rating r \<le> 5"
    and size: "length (reviews s) < 2 ^ 32"
  shows "(\<exists>doc. reviews s' = reviews s @ [doc] \<and> bookId doc = b
                \<and> body_rating req = Some (review_rating doc))
       \<and> rating bk = round_double (arithmetic_mean
                        (map review_rating (filter (\<lambda>r. bookId r = b) (reviews s'))))
       \<and> (\<exists>d. rating bk = Num d
              \<and> \<bar>d - arithmetic_mean (map review_rating (filter (\<lambda>r. bookId r = b) (reviews s')))\<bar>
                  \<le> arithmetic_mean (map review_rating (filter (\<lambda>r. bookId r = b) (reviews s')))
                      / 2 ^ 53)
       \<and> reviewCount bk = length (filter (\<lambda>r. bookId r = b) (reviews s'))"
  using run [unfolded post_reviews_def]
proof (cases rule: review_route_cases)
  case (unauthenticated a)
  with created show ?thesis by simp
next
  case (invalid decoded)
  with created show ?thesis by simp
next
  case (handled decoded)
  let ?req = "req\<lparr>req_user := Some decoded,
                   body_content := map_option trim (body_content req),
                   validation_errors := []\<rparr>"
  let ?rs = "filter (\<lambda>r. bookId r = b) (reviews s')"
  let ?mean = "arithmetic_mean (map review_rating ?rs)"
  let ?f = "\<lambda>bk. bk\<lparr>rating := js_div (sum_ratings ?rs) (Number_of_int (int (length ?rs))),
                     reviewCount := length ?rs\<rparr>"
  from b have b': "body_bookId ?req = Some b" by simp
  note c = create_review_201 [OF handled(3) created b', unfolded Review_find_bookId_def
      Book_findById_def]
  from c obtain doc where doc: "reviews s' = reviews s @ [doc]" "bookId doc = b"
      "body_rating req = Some (review_rating doc)"
      "1 \<le> review_rating doc" "review_rating doc \<le> 5"
    by auto
  then have new: "\<exists>doc. reviews s' = reviews s @ [doc] \<and> bookId doc = b
                \<and> body_rating req = Some (review_rating doc)"
    by blast
  have ne: "?rs \<noteq> []" using doc(1,2) by simp
  have range': "\<forall>r\<in>set ?rs. 1 \<le> review_rating r \<and> review_rating r \<le> 5"
    using range doc(1,4,5) by auto
  have "length ?rs \<le> length (reviews s')" by (rule length_filter_le)
  also have "\<dots> \<le> 2 ^ 32" using size doc(1) by simp
  finally have size': "length ?rs \<le> 2 ^ 32" .
  note avg = average_rating [OF ne range' size']
  from c have "find (\<lambda>x. book_id x = b) (books s')
             = map_option ?f (find (\<lambda>x. book_id x = b) (books s))"
    by (rule conjunct2)
  with bk obtain bk0 where "bk = ?f bk0"
    by (cases "find (\<lambda>x. book_id x = b) (books s)") auto
  then have r: "rating bk = round_double ?mean" and n: "reviewCount bk = length ?rs"
    using avg by simp_all
  from round_double_mean_near [OF mean_ratings_bounds [OF ne range']] r
  have "\<exists>d. rating bk = Num d \<and> \<bar>d - ?mean\<bar> \<le> ?mean / 2 ^ 53"
    by simp
  with new r n show ?thesis by simp
qed

theorem create_review_recomputes_book_witness:
  "status (fst (post_reviews example_env
       (blank_request\<lparr>authorization := Some ''Bearer bob.jwt'', body_bookId := Some 10,
                body_rating := Some 5, body_content := Some ''Gripping to the end''\<rparr>)
       example_store)) = 201
   \<and> find (\<lambda>x. book_id x = 10) (books (snd (post_reviews example_env
       (blank_request\<lparr>authorization := Some ''Bearer bob.jwt'', body_bookId := Some 10,
                body_rating := Some 5, body_content := Some ''Gripping to the end''\<rparr>)
       example_store)))
       = Some (dune\<lparr>rating := Num (9 / 2), reviewCount := 2\<rparr>)
   \<and> map review_rating (reviews example_store) = [4]
   \<and> map review_rating (filter (\<lambda>r. bookId r = 10) (reviews (snd (post_reviews example_env
       (blank_request\<lparr>authorization := Some ''Bearer bob.jwt'', body_bookId := Some 10,
                body_rating := Some 5, body_content := Some ''Gripping to the end''\<rparr>)
       example_store)))) = [4, 5]
   \<and> round_double (arithmetic_mean [4, 5]) = Num (9 / 2)"
proof -
  let ?req = "blank_request\<lparr>authorization := Some ''Bearer bob.jwt'', body_bookId := Some 10,
                body_rating := Some 5, body_content := Some ''Gripping to the end''\<rparr>"
  let ?out = "post_reviews example_env ?req example_store"
  have run: "?out = (fst ?out, snd ?out)" by simp
  have created: "status (fst ?out) = 201"
    by (simp add: post_reviews_def create_review_def Review_create_def middleware_defs
        store_defs example_defs Let_def)
  have bk: "find (\<lambda>x. book_id x = 10) (books (snd ?out))
          = Some (dune\<lparr>rating := Num (9 / 2), reviewCount := 2\<rparr>)"
    by (simp add: post_reviews_def create_review_def Review_create_def
        sum_ratings_def number_simps middleware_defs store_defs example_defs Let_def)
  have b: "body_bookId ?req = Some 10" by simp
  have range: "\<forall>r\<in>set (reviews example_store). 1 \<le> review_rating r \<and> review_rating r \<le> 5"
    by (simp add: example_defs)
  have size: "length (reviews example_store) < 2 ^ 32"
    by (simp add: example_defs)
  have rs: "map review_rating (filter (\<lambda>r. bookId r = 10) (reviews (snd ?out))) = [4, 5]"
    by (simp add: post_reviews_def create_review_def Review_create_def
        middleware_defs store_defs example_defs Let_def)
  from create_review_recomputes_book [OF run created bk b range size]
  have "Num (9 / 2) = round_double (arithmetic_mean
          (map review_rating (filter (\<lambda>r. bookId r = 10) (reviews (snd ?out)))))"
    by simp
  then have "round_double (arithmetic_mean [4, 5]) = Num (9 / 2)"
    by (simp only: rs)
  moreover have "map review_rating (reviews example_store) = [4]"
    by (simp add: example_defs)
  ultimately show ?thesis using created bk rs by simp
qed

text \<open>
  C3. When a book has exactly one review and its owner deletes it (the request is
  authenticated as the review's user and names the review's id), the handler answers 200,
  no review of the book is left, and the book's \<open>rating\<close> is the number 0 and its
  \<open>reviewCount\<close> is 0. A division by the zero length would have stored \<open>NaN\<close>; the
  guard of the handler stores \<open>Num 0\<close>. Ids of reviews are unique, as the database
  guarantees for \<open>_id\<close>.
\<close>

theorem delete_only_review_resets_book:
  assumes auth: "authenticate env req s = Inr (req\<lparr>req_user := Some usr\<rparr>, s)"
    and ids: "distinct (map review_id (reviews s))"
    and only: "Review_find_bookId b s = [r]"
    and target: "param_id req = Some (review_id r)"
    and owner: "userId r = claims_id usr"
    and bk: "Book_findById b s = Some bk"
  shows "\<exists>resp s'. delete_reviews env req s = (resp, s') \<and> status resp = 200
           \<and> Review_find_bookId b s' = []
           \<and> Book_findById b s' = Some (bk\<lparr>rating := Num 0, reviewCount := 0\<rparr>)"
proof -
  have "r \<in> set (Review_find_bookId b s)"
    using only by simp
  then have rin: "r \<in> set (reviews s)" and rb: "bookId r = b"
    by (simp_all add: Review_find_bookId_def)
  have found: "Review_findOne_id_userId (review_id r) (claims_id usr) s = Some r"
    unfolding Review_findOne_id_userId_def
    using find_distinct_key [OF ids rin, of "\<lambda>x. userId x = claims_id usr"] owner by simp
  let ?s1 = "Review_remove r s"
  have none: "Review_find_bookId b ?s1 = []"
  proof (rule ccontr)
    assume "Review_find_bookId b ?s1 \<noteq> []"
    then obtain x where x: "x \<in> set (remove_first (\<lambda>x. review_id x = review_id r) (reviews s))"
        "bookId x = b"
      by (auto simp: filter_empty_conv Review_find_bookId_def Review_remove_def)
    then have "x \<in> set (Review_find_bookId b s)"
      using set_remove_first [of _ "reviews s"] by (auto simp: Review_find_bookId_def)
    with only have "x = r" by simp
    with remove_first_distinct_key [OF ids x(1)] show False by simp
  qed
  have books: "Book_findById b ?s1 = Some bk"
    using bk by (simp add: Book_findById_def Review_remove_def)
  have "delete_review env (req\<lparr>req_user := Some usr\<rparr>) s =
      (\<lparr>status = 200, body = JObj [(''message'', JStr ''Review deleted successfully'')]\<rparr>,
       Book_findByIdAndUpdate b (\<lambda>bk. bk\<lparr>rating := Num 0, reviewCount := 0\<rparr>) ?s1)"
    using found none target rb by (simp add: delete_review_def)
  moreover have "Book_findById b
       (Book_findByIdAndUpdate b (\<lambda>bk. bk\<lparr>rating := Num 0, reviewCount := 0\<rparr>) ?s1)
      = Some (bk\<lparr>rating := Num 0, reviewCount := 0\<rparr>)"
    using books by (simp add: Book_findById_update)
  ultimately show ?thesis
    using auth none by (simp add: delete_reviews_def)
qed

theorem delete_only_review_resets_book_witness:
  "authenticate example_env
       (blank_request\<lparr>authorization := Some ''Bearer alice.jwt'', param_id := Some 20\<rparr>)
       example_store
     = Inr (blank_request\<lparr>authorization := Some ''Bearer alice.jwt'', param_id := Some 20,
                           req_user := Some alice_claims\<rparr>, example_store)
   \<and> distinct (map review_id (reviews example_store))
   \<and> Review_find_bookId 10 example_store = [alice_review]
   \<and> userId alice_review = claims_id alice_claims
   \<and> Book_findById 10 example_store = Some dune
   \<and> (\<exists>resp s'. delete_reviews example_env
          (blank_request\<lparr>authorization := Some ''Bearer alice.jwt'', param_id := Some 20\<rparr>)
          example_store = (resp, s')
        \<and> status resp = 200 \<and> Review_find_bookId 10 s' = []
        \<and> Book_findById 10 s' = Some (dune\<lparr>rating := Num 0, reviewCount := 0\<rparr>))"
proof -
  let ?req = "blank_request\<lparr>authorization := Some ''Bearer alice.jwt'', param_id := Some 20\<rparr>"
  have h1: "authenticate example_env ?req example_store
         = Inr (?req\<lparr>req_user := Some alice_claims\<rparr>, example_store)"
    by (simp add: authenticate_def blank_request_def startsWith_def at_index_def example_env_def)
  have h2: "distinct (map review_id (reviews example_store))"
    by (simp add: example_store_def)
  have h3: "Review_find_bookId 10 example_store = [alice_review]"
    by (simp add: Review_find_bookId_def example_store_def alice_review_def)
  have h4: "param_id ?req = Some (review_id alice_review)"
    by (simp add: alice_review_def)
  have h5: "userId alice_review = claims_id alice_claims"
    by (simp add: alice_review_def alice_claims_def)
  have h6: "Book_findById 10 example_store = Some dune"
    by (simp add: Book_findById_def example_store_def dune_def)
  from delete_only_review_resets_book [OF h1 h2 h3 h4 h5 h6] h1 h2 h3 h5 h6
  show ?thesis by simp
qed

section \<open>Rejected review submissions\<close>

lemma create_review_existing:
  assumes "body_bookId req = Some b" and "req_user req = Some usr"
    and "r \<in> set (reviews s)" and "bookId r = b" and "userId r = claims_id usr"
  shows "create_review env req s =
           (\<lparr>status = 400, body = error_json ''You have already reviewed this book''\<rparr>, s)"
proof -
  from assms(3-5) have "Review_findOne_bookId_userId b (claims_id usr) s \<noteq> None"
    by (auto simp: Review_findOne_bookId_userId_def find_None_iff)
  then obtain x where "Review_findOne_bookId_userId b (claims_id usr) s = Some x" by blast
  with assms(1,2) show ?thesis by (simp add: create_review_def)
qed

lemma authenticate_Inr_decoded:
  assumes "authenticate env req s = Inr (req\<lparr>req_user := Some usr\<rparr>, s)"
    and "authenticate env req s = Inr (req\<lparr>req_user := Some decoded\<rparr>, s)"
  shows "decoded = usr"
proof -
  from assms have "req\<lparr>req_user := Some usr\<rparr> = req\<lparr>req_user := Some decoded\<rparr>" by simp
  then have "req_user (req\<lparr>req_user := Some usr\<rparr>) = req_user (req\<lparr>req_user := Some decoded\<rparr>)"
    by (rule arg_cong)
  then show ?thesis by simp
qed

text \<open>
  C4. When the request is authenticated as a user who already has a review of the book
  the body names, \<open>POST /api/reviews\<close> answers 400 and returns the store as it was: no
  review is added and no book changes. (The answer is 400 whether the validation or the
  pre-check of the handler rejects the request.)
\<close>

theorem second_review_rejected:
  assumes auth: "authenticate env req s = Inr (req\<lparr>req_user := Some usr\<rparr>, s)"
    and b: "body_bookId req = Some b"
    and existing: "r \<in> set (reviews s)" "bookId r = b" "userId r = claims_id usr"
  shows "\<exists>resp. post_reviews env req s = (resp, s) \<and> status resp = 400"
proof -
  obtain resp s' where run: "post_reviews env req s = (resp, s')"
    by (cases "post_reviews env req s")
  from run [unfolded post_reviews_def] have "status resp = 400 \<and> s' = s"
  proof (cases rule: review_route_cases)
    case (unauthenticated a)
    with auth show ?thesis by simp
  next
    case (invalid decoded)
    then show ?thesis by simp
  next
    case (handled decoded)
    from authenticate_Inr_decoded [OF auth handled(1)] have d: "decoded = usr" .
    let ?req = "req\<lparr>req_user := Some decoded,
                   body_content := map_option trim (body_content req),
                   validation_errors := []\<rparr>"
    have "create_review env ?req s =
           (\<lparr>status = 400, body = error_json ''You have already reviewed this book''\<rparr>, s)"
      by (rule create_review_existing [where b = b and usr = usr and r = r])
        (use b d existing in simp_all)
    with handled(3) show ?thesis by auto
  qed
  with run show ?thesis by simp
qed

theorem second_review_rejected_witness:
  "authenticate example_env
       (blank_request\<lparr>authorization := Some ''Bearer alice.jwt'', body_bookId := Some 10,
                body_rating := Some 3, body_content := Some ''On a second reading''\<rparr>)
       example_store
     = Inr (blank_request\<lparr>authorization := Some ''Bearer alice.jwt'', body_bookId := Some 10,
                body_rating := Some 3, body_content := Some ''On a second reading'',
                req_user := Some alice_claims\<rparr>, example_store)
   \<and> alice_review \<in> set (reviews example_store)
   \<and> bookId alice_review = 10 \<and> userId alice_review = claims_id alice_claims
   \<and> (\<exists>resp. post_reviews example_env
          (blank_request\<lparr>authorization := Some ''Bearer alice.jwt'', body_bookId := Some 10,
                body_rating := Some 3, body_content := Some ''On a second reading''\<rparr>)
          example_store = (resp, example_store)
        \<and> status resp = 400)"
proof -
  let ?req = "blank_request\<lparr>authorization := Some ''Bearer alice.jwt'', body_bookId := Some 10,
                body_rating := Some 3, body_content := Some ''On a second reading''\<rparr>"
  have h1: "authenticate example_env ?req example_store
         = Inr (?req\<lparr>req_user := Some alice_claims\<rparr>, example_store)"
    by (simp add: authenticate_def blank_request_def startsWith_def at_index_def example_env_def)
  have h2: "body_bookId ?req = Some 10" by simp
  have h3: "alice_review \<in> set (reviews example_store)" by (simp add: example_store_def)
  have h4: "bookId alice_review = 10" by (simp add: alice_review_def)
  have h5: "userId alice_review = claims_id alice_claims"
    by (simp add: alice_review_def alice_claims_def)
  from second_review_rejected [OF h1 h2 h3 h4 h5] h1 h3 h4 h5
  show ?thesis by simp
qed

text \<open>
  C5, as stated, fails: the route runs \<open>authenticate\<close> before the validation, so a
  request with rating 0 and no bearer token is answered 401, not 400.
\<close>

theorem invalid_rating_unauthenticated_counterexample:
  "status (fst (post_reviews example_env
      (blank_request\<lparr>body_bookId := Some 10, body_rating := Some 0,
                      body_content := Some ''Gripping to the end''\<rparr>)
      example_store)) = 401"
  by (simp add: post_reviews_def authenticate_def blank_request_def)

text \<open>
  C5, amended. When the request carries a valid bearer token and its body rating is an
  integer outside 1..5, \<open>POST /api/reviews\<close> answers 400, the body lists the validation
  error of the rating, and the store is returned as it was: no review is created and no
  book changes.
\<close>

theorem invalid_rating_rejected:
  assumes auth: "authenticate env req s = Inr (req\<lparr>req_user := Some usr\<rparr>, s)"
    and rating: "body_rating req = Some n" and outside: "n < 1 \<or> 5 < n"
  shows "\<exists>resp errs. post_reviews env req s = (resp, s) \<and> status resp = 400
           \<and> body resp = JObj [(''errors'', JArr errs)]
           \<and> validation_error_json (''rating'', ''Rating must be between 1 and 5'') \<in> set errs"
proof -
  obtain resp s' where run: "post_reviews env req s = (resp, s')"
    by (cases "post_reviews env req s")
  have e: "review_rating_errors req = [(''rating'', ''Rating must be between 1 and 5'')]"
    using rating outside by (auto simp: review_rating_errors_def isInt_def)
  from run [unfolded post_reviews_def]
  have "s' = s \<and> status resp = 400
      \<and> (\<exists>errs. body resp = JObj [(''errors'', JArr errs)]
           \<and> validation_error_json (''rating'', ''Rating must be between 1 and 5'') \<in> set errs)"
  proof (cases rule: review_route_cases)
    case (unauthenticated a)
    with auth show ?thesis by simp
  next
    case (invalid decoded)
    then show ?thesis by (simp add: e)
  next
    case (handled decoded)
    with e show ?thesis by simp
  qed
  with run show ?thesis by auto
qed

theorem invalid_rating_rejected_witness:
  "authenticate example_env
       (blank_request\<lparr>authorization := Some ''Bearer bob.jwt'', body_bookId := Some 10,
                body_rating := Some 6, body_content := Some ''Gripping to the end''\<rparr>)
       example_store
     = Inr (blank_request\<lparr>authorization := Some ''Bearer bob.jwt'', body_bookId := Some 10,
                body_rating := Some 6, body_content := Some ''Gripping to the end'',
                req_user := Some bob_claims\<rparr>, example_store)
   \<and> (\<exists>resp errs. post_reviews example_env
          (blank_request\<lparr>authorization := Some ''Bearer bob.jwt'', body_bookId := Some 10,
                body_rating := Some 6, body_content := Some ''Gripping to the end''\<rparr>)
          example_store = (resp, example_store)
        \<and> status resp = 400 \<and> body resp = JObj [(''errors'', JArr errs)]
        \<and> validation_error_json (''rating'', ''Rating must be between 1 and 5'') \<in> set errs)"
proof -
  let ?req = "blank_request\<lparr>authorization := Some ''Bearer bob.jwt'', body_bookId := Some 10,
                body_rating := Some 6, body_content := Some ''Gripping to the end''\<rparr>"
  have h1: "authenticate example_env ?req example_store
         = Inr (?req\<lparr>req_user := Some bob_claims\<rparr>, example_store)"
    by (simp add: authenticate_def blank_request_def startsWith_def at_index_def example_env_def)
  have h2: "body_rating ?req = Some 6" by simp
  have h3: "(6::int) < 1 \<or> 5 < (6::int)" by simp
  from invalid_rating_rejected [OF h1 h2 h3] h1
  show ?thesis by simp
qed

section \<open>Authentication\<close>

lemma split_Cons: "\<exists>w ws. split sep str = w # ws"
  by (induction str) (auto split: list.splits)

lemma split_after_prefix:
  "split sep (pre @ sep # rest) \<noteq> [] \<and> 2 \<le> length (split sep (pre @ sep # rest))"
proof (induction pre)
  case Nil
  obtain w ws where "split sep rest = w # ws" using split_Cons by blast
  then show ?case by simp
next
  case (Cons c pre)
  then show ?case by (auto split: list.splits)
qed

text \<open>A header that starts with \<open>Bearer \<close> always yields a token to verify.\<close>

lemma bearer_header_has_token:
  assumes "startsWith authHeader ''Bearer ''"
  shows "\<exists>token. at_index (split CHR '' '' authHeader) 1 = Some token"
proof -
  have "length ''Bearer '' = 7" by simp
  with assms have t: "take 7 authHeader = ''Bearer ''"
    unfolding startsWith_def by (simp only:)
  have "authHeader = take 7 authHeader @ drop 7 authHeader" by simp
  then have "authHeader = ''Bearer '' @ drop 7 authHeader" by (simp only: t)
  then have "authHeader = ''Bearer'' @ CHR '' '' # drop 7 authHeader" by simp
  then have "2 \<le> length (split CHR '' '' authHeader)"
    using split_after_prefix [of "CHR '' ''" "''Bearer''" "drop 7 authHeader"] by simp
  then show ?thesis by (simp add: at_index_def)
qed


lemma authenticate_rejects:
  assumes "authorization req = None
         \<or> (\<exists>h. authorization req = Some h \<and> \<not> startsWith h ''Bearer '')
         \<or> (\<exists>h token. authorization req = Some h
               \<and> at_index (split CHR '' '' h) 1 = Some token
               \<and> jwt_verify env token (req_time req) = None)"
  shows "\<exists>resp. authenticate env req s = Inl (resp, s) \<and> status resp = 401"
  using assms by (auto simp: authenticate_def split: option.splits)

text \<open>The three cases are all the ways in which \<open>authenticate\<close> answers itself.\<close>

lemma authenticate_accepts:
  assumes "authorization req = Some h" and "startsWith h ''Bearer ''"
    and "at_index (split CHR '' '' h) 1 = Some token"
    and "jwt_verify env token (req_time req) = Some decoded"
  shows "authenticate env req s = Inr (req\<lparr>req_user := Some decoded\<rparr>, s)"
proof -
  from assms(2) have "h \<noteq> []" by (auto simp: startsWith_def)
  with assms show ?thesis by (simp add: authenticate_def)
qed

text \<open>
  C6. On every endpoint whose route lists \<open>authenticate\<close>, a request whose
  Authorization header is absent, or does not start with \<open>Bearer \<close>, or whose token (the
  second field of the header split at spaces) fails verification, is answered 401 by the
  middleware; the handler is not run and the store is returned as it was.
\<close>

theorem unauthenticated_request_rejected:
  assumes ep: "protected ep"
    and bad: "authorization req = None
         \<or> (\<exists>h. authorization req = Some h \<and> \<not> startsWith h ''Bearer '')
         \<or> (\<exists>h token. authorization req = Some h
               \<and> at_index (split CHR '' '' h) 1 = Some token
               \<and> jwt_verify env token (req_time req) = None)"
  shows "\<exists>resp. app ep env req s = (resp, s) \<and> status resp = 401"
proof -
  from authenticate_rejects [OF bad] obtain resp where
    a: "authenticate env req s = Inl (resp, s)" and r: "status resp = 401"
    by blast
  have "route (authenticate # ms) h env req s = (resp, s)" for ms h
    using a by simp
  then have "router ep env req s = (resp, s)"
    using ep by (cases ep)
      (simp_all add: post_reviews_def put_reviews_def delete_reviews_def get_me_def
        del: route.simps)
  then have "app ep env req s = (resp, s)"
    by (simp add: app_def cors_def express_json_def)
  with r show ?thesis by blast
qed

theorem unauthenticated_request_rejected_witness:
  "protected DELETE_reviews_id
   \<and> authorization (blank_request\<lparr>authorization := Some ''Bearer forged.jwt'',
                                    param_id := Some 20\<rparr>) = Some ''Bearer forged.jwt''
   \<and> at_index (split CHR '' '' ''Bearer forged.jwt'') 1 = Some ''forged.jwt''
   \<and> jwt_verify example_env ''forged.jwt'' 1000 = None
   \<and> (\<exists>resp. app DELETE_reviews_id example_env
          (blank_request\<lparr>authorization := Some ''Bearer forged.jwt'', param_id := Some 20\<rparr>)
          example_store = (resp, example_store)
        \<and> status resp = 401)"
proof -
  let ?req = "blank_request\<lparr>authorization := Some ''Bearer forged.jwt'', param_id := Some 20\<rparr>"
  have h1: "protected DELETE_reviews_id" by simp
  have h2: "authorization ?req = Some ''Bearer forged.jwt''" by simp
  have h3: "at_index (split CHR '' '' ''Bearer forged.jwt'') 1 = Some ''forged.jwt''"
    by (simp add: at_index_def)
  have h4: "jwt_verify example_env ''forged.jwt'' 1000 = None"
    by (simp add: example_env_def)
  have t: "req_time ?req = 1000" by (simp add: blank_request_def)
  have "\<exists>h token. authorization ?req = Some h
               \<and> at_index (split CHR '' '' h) 1 = Some token
               \<and> jwt_verify example_env token (req_time ?req) = None"
  proof (intro exI conjI)
    show "authorization ?req = Some ''Bearer forged.jwt''" by (rule h2)
    show "at_index (split CHR '' '' ''Bearer forged.jwt'') 1 = Some ''forged.jwt''" by (rule h3)
    show "jwt_verify example_env ''forged.jwt'' (req_time ?req) = None"
      unfolding t by (rule h4)
  qed
  then have bad: "authorization ?req = None
         \<or> (\<exists>h. authorization ?req = Some h \<and> \<not> startsWith h ''Bearer '')
         \<or> (\<exists>h token. authorization ?req = Some h
               \<and> at_index (split CHR '' '' h) 1 = Some token
               \<and> jwt_verify example_env token (req_time ?req) = None)"
    by (intro disjI2)
  from unauthenticated_request_rejected [OF h1 bad, of example_store] h1 h2 h3 h4
  show ?thesis by simp
qed

section \<open>Updating a review\<close>

lemma update_first_const_mem:
  "x \<in> set xs \<Longrightarrow> P x \<Longrightarrow> c \<in> set (update_first P (\<lambda>_. c) xs)"
  by (induction xs) auto

lemma set_update_first_const: "set (update_first P (\<lambda>_. c) xs) \<subseteq> insert c (set xs)"
  by (induction xs) auto

lemma length_update_first [simp]: "length (update_first P f xs) = length xs"
  by (induction xs) simp_all

lemma Review_save_Inr:
  assumes "Review_save doc r c now s = Inr (doc', s1)"
  shows "bookId doc' = bookId doc" "review_id doc' = review_id doc"
    "r = Some (review_rating doc')"
    "reviews s1 = update_first (\<lambda>x. review_id x = review_id doc) (\<lambda>_. doc') (reviews s)"
    "books s1 = books s"
    "1 \<le> review_rating doc'" "review_rating doc' \<le> 5"
  using assms by (auto simp: Review_save_def Let_def split: option.splits if_splits)

lemma update_review_200:
  assumes run: "update_review env req s = (resp, s')" and ok: "status resp = 200"
  shows "\<exists>doc doc'. doc \<in> set (reviews s) \<and> param_id req = Some (review_id doc)
           \<and> reviews s' = update_first (\<lambda>x. review_id x = review_id doc) (\<lambda>_. doc') (reviews s)
           \<and> 1 \<le> review_rating doc' \<and> review_rating doc' \<le> 5
           \<and> Review_find_bookId (bookId doc) s' \<noteq> []
           \<and> Book_findById (bookId doc) s' =
               map_option (\<lambda>bk. bk\<lparr>rating :=
                   js_div (sum_ratings (Review_find_bookId (bookId doc) s'))
                          (Number_of_int (int (length (Review_find_bookId (bookId doc) s'))))\<rparr>)
                 (Book_findById (bookId doc) s)"
proof -
  obtain i where i: "param_id req = Some i"
    using run ok by (cases "param_id req") (auto simp: update_review_def server_error_def)
  obtain usr where u: "req_user req = Some usr"
    using run ok i by (cases "req_user req") (auto simp: update_review_def server_error_def)
  obtain doc where f: "Review_findOne_id_userId i (claims_id usr) s = Some doc"
    using run ok i u
    by (cases "Review_findOne_id_userId i (claims_id usr) s") (auto simp: update_review_def)
  then have din: "doc \<in> set (reviews s)" and did: "review_id doc = i"
    by (auto simp: Review_findOne_id_userId_def find_Some_iff)
  obtain doc' s1 where
    sv: "Review_save doc (body_rating req) (body_content req) (req_time req) s = Inr (doc', s1)"
    using run ok i u f
    by (cases "Review_save doc (body_rating req) (body_content req) (req_time req) s")
      (auto simp: update_review_def server_error_def)
  note facts = Review_save_Inr [OF sv]
  let ?b = "bookId doc"
  let ?f = "\<lambda>bk. bk\<lparr>rating := js_div (sum_ratings (Review_find_bookId ?b s1))
                                    (Number_of_int (int (length (Review_find_bookId ?b s1))))\<rparr>"
  from run i u f sv facts(1) have s': "s' = Book_findByIdAndUpdate ?b ?f s1"
    by (simp add: update_review_def Let_def)
  have r: "Review_find_bookId ?b s' = Review_find_bookId ?b s1"
    by (simp add: s')
  have rs: "reviews s' = update_first (\<lambda>x. review_id x = review_id doc) (\<lambda>_. doc') (reviews s)"
    using facts(4) by (simp add: s' Book_findByIdAndUpdate_def)
  have "doc' \<in> set (reviews s1)"
    unfolding facts(4) using din by (rule update_first_const_mem) simp
  then have ne: "Review_find_bookId ?b s1 \<noteq> []"
    using facts(1) by (auto simp: Review_find_bookId_def filter_empty_conv)
  have "Book_findById ?b s' = map_option ?f (Book_findById ?b s1)"
    unfolding s' by (rule Book_findById_update) simp
  moreover have "Book_findById ?b s1 = Book_findById ?b s"
    using facts(5) by (simp add: Book_findById_def)
  ultimately have bk: "Book_findById ?b s' =
               map_option (\<lambda>bk. bk\<lparr>rating :=
                   js_div (sum_ratings (Review_find_bookId ?b s'))
                          (Number_of_int (int (length (Review_find_bookId ?b s'))))\<rparr>)
                 (Book_findById ?b s)"
    using r by simp
  from ne r have ne': "Review_find_bookId ?b s' \<noteq> []" by simp
  show ?thesis
  proof (intro exI conjI)
    show "doc \<in> set (reviews s)" by (rule din)
    show "param_id req = Some (review_id doc)" using i did by simp
    show "reviews s' = update_first (\<lambda>x. review_id x = review_id doc) (\<lambda>_. doc') (reviews s)"
      by (rule rs)
    show "1 \<le> review_rating doc'" by (rule facts(6))
    show "review_rating doc' \<le> 5" by (rule facts(7))
    show "Review_find_bookId ?b s' \<noteq> []" by (rule ne')
    show "Book_findById ?b s' =
               map_option (\<lambda>bk. bk\<lparr>rating :=
                   js_div (sum_ratings (Review_find_bookId ?b s'))
                          (Number_of_int (int (length (Review_find_bookId ?b s'))))\<rparr>)
                 (Book_findById ?b s)"
      by (rule bk)
  qed
qed

text \<open>
  C2, as stated, fails: the update handler writes only \<open>rating\<close>. On a store whose book
  holds a stale \<open>reviewCount\<close> of 7 and has one review, a successful update leaves the 7.
\<close>

theorem update_keeps_reviewCount_counterexample:
  "status (fst (put_reviews example_env
      (blank_request\<lparr>authorization := Some ''Bearer alice.jwt'', param_id := Some 20,
                      body_rating := Some 2, body_content := Some ''Not as good as I remembered''\<rparr>)
      (example_store\<lparr>books := [dune\<lparr>reviewCount := 7\<rparr>]\<rparr>))) = 200
   \<and> map reviewCount (books (snd (put_reviews example_env
      (blank_request\<lparr>authorization := Some ''Bearer alice.jwt'', param_id := Some 20,
                      body_rating := Some 2, body_content := Some ''Not as good as I remembered''\<rparr>)
      (example_store\<lparr>books := [dune\<lparr>reviewCount := 7\<rparr>]\<rparr>)))) = [7]
   \<and> map bookId (reviews (snd (put_reviews example_env
      (blank_request\<lparr>authorization := Some ''Bearer alice.jwt'', param_id := Some 20,
                      body_rating := Some 2, body_content := Some ''Not as good as I remembered''\<rparr>)
      (example_store\<lparr>books := [dune\<lparr>reviewCount := 7\<rparr>]\<rparr>)))) = [10]
   \<and> map book_id (books (snd (put_reviews example_env
      (blank_request\<lparr>authorization := Some ''Bearer alice.jwt'', param_id := Some 20,
                      body_rating := Some 2, body_content := Some ''Not as good as I remembered''\<rparr>)
      (example_store\<lparr>books := [dune\<lparr>reviewCount := 7\<rparr>]\<rparr>)))) = [10]"
  by (simp add: put_reviews_def update_review_def Review_save_def middleware_defs store_defs
      example_defs Let_def)

text \<open>
  C2, amended. When \<open>PUT /api/reviews/:id\<close> answers 200, the request named a stored
  review, and the book of that review, if it is stored, is the book as it was with only
  \<open>rating\<close> overwritten: by the arithmetic mean of the ratings of the reviews of that
  book now stored (a non-empty list), as a Number holds it, which is the double nearest to
  the mean and differs from it by at most the fraction \<open>1 / 2 ^ 53\<close> of the mean.
  \<open>reviewCount\<close> is not written and keeps the value it had, whatever that was. The
  reviews of the book are those with its \<open>bookId\<close>, the book is the first document with
  that \<open>_id\<close>. The stored ratings are within the range of the schema, 1 to 5, and there
  are fewer than \<open>2 ^ 32\<close> reviews.
\<close>

theorem update_review_recomputes_rating:
  assumes run: "put_reviews env req s = (resp, s')" and ok: "status resp = 200"
    and range: "\<forall>r\<in>set (reviews s). 1 \<le> review_rating r \<and> review_rating r \<le> 5"
    and size: "length (reviews s) < 2 ^ 32"
  shows "\<exists>doc mean. doc \<in> set (reviews s) \<and> param_id req = Some (review_id doc)
           \<and> filter (\<lambda>r. bookId r = bookId doc) (reviews s') \<noteq> []
           \<and> mean = arithmetic_mean
                      (map review_rating (filter (\<lambda>r. bookId r = bookId doc) (reviews s')))
           \<and> find (\<lambda>x. book_id x = bookId doc) (books s') =
               map_option (\<lambda>bk. bk\<lparr>rating := round_double mean\<rparr>)
                 (find (\<lambda>x. book_id x = bookId doc) (books s))
           \<and> (\<exists>d. round_double mean = Num d \<and> \<bar>d - mean\<bar> \<le> mean / 2 ^ 53)"
  using run [unfolded put_reviews_def]
proof (cases rule: review_route_cases)
  case (unauthenticated a)
  with ok show ?thesis by simp
next
  case (invalid decoded)
  with ok show ?thesis by simp
next
  case (handled decoded)
  from update_review_200 [OF handled(3) ok, unfolded Review_find_bookId_def Book_findById_def]
  obtain doc doc' where
    d: "doc \<in> set (reviews s)" "param_id req = Some (review_id doc)"
    and rs: "reviews s' = update_first (\<lambda>x. review_id x = review_id doc) (\<lambda>_. doc') (reviews s)"
    and new: "1 \<le> review_rating doc'" "review_rating doc' \<le> 5"
    and ne: "filter (\<lambda>r. bookId r = bookId doc) (reviews s') \<noteq> []"
    and bk: "find (\<lambda>x. book_id x = bookId doc) (books s') =
               map_option (\<lambda>bk. bk\<lparr>rating :=
                   js_div (sum_ratings (filter (\<lambda>r. bookId r = bookId doc) (reviews s')))
                          (Number_of_int (int (length
                             (filter (\<lambda>r. bookId r = bookId doc) (reviews s')))))\<rparr>)
                 (find (\<lambda>x. book_id x = bookId doc) (books s))"
    by auto
  let ?rs = "filter (\<lambda>r. bookId r = bookId doc) (reviews s')"
  let ?mean = "arithmetic_mean (map review_rating ?rs)"
  have "set (reviews s') \<subseteq> insert doc' (set (reviews s))"
    unfolding rs by (rule set_update_first_const)
  with range new have range': "\<forall>r\<in>set ?rs. 1 \<le> review_rating r \<and> review_rating r \<le> 5"
    by auto
  have "length ?rs \<le> length (reviews s')" by (rule length_filter_le)
  also have "\<dots> \<le> 2 ^ 32" using size by (simp add: rs)
  finally have size': "length ?rs \<le> 2 ^ 32" .
  note avg = average_rating [OF ne range' size']
  have bk': "find (\<lambda>x. book_id x = bookId doc) (books s') =
               map_option (\<lambda>bk. bk\<lparr>rating := round_double ?mean\<rparr>)
                 (find (\<lambda>x. book_id x = bookId doc) (books s))"
    using bk by (simp only: avg)
  note near = round_double_mean_near [OF mean_ratings_bounds [OF ne range']]
  show ?thesis
  proof (rule exI [of _ doc], rule exI [of _ ?mean], intro conjI)
    show "doc \<in> set (reviews s)" by (rule d(1))
    show "param_id req = Some (review_id doc)" by (rule d(2))
    show "?rs \<noteq> []" by (rule ne)
    show "?mean = arithmetic_mean (map review_rating ?rs)" by (rule refl)
    show "find (\<lambda>x. book_id x = bookId doc) (books s') =
               map_option (\<lambda>bk. bk\<lparr>rating := round_double ?mean\<rparr>)
                 (find (\<lambda>x. book_id x = bookId doc) (books s))"
      by (rule bk')
    show "\<exists>d. round_double ?mean = Num d \<and> \<bar>d - ?mean\<bar> \<le> ?mean / 2 ^ 53" by (rule near)
  qed
qed

theorem update_review_recomputes_rating_witness:
  "status (fst (put_reviews example_env
      (blank_request\<lparr>authorization := Some ''Bearer alice.jwt'', param_id := Some 20,
                      body_rating := Some 2, body_content := Some ''Not as good as I remembered''\<rparr>)
      example_store)) = 200
   \<and> map review_rating (reviews example_store) = [4]
   \<and> (\<exists>doc mean. doc \<in> set (reviews example_store) \<and> review_id doc = 20
        \<and> mean = arithmetic_mean (map review_rating (filter (\<lambda>r. bookId r = bookId doc)
             (reviews (snd (put_reviews example_env
               (blank_request\<lparr>authorization := Some ''Bearer alice.jwt'', param_id := Some 20,
                               body_rating := Some 2,
                               body_content := Some ''Not as good as I remembered''\<rparr>)
               example_store)))))
        \<and> find (\<lambda>x. book_id x = bookId doc) (books (snd (put_reviews example_env
             (blank_request\<lparr>authorization := Some ''Bearer alice.jwt'', param_id := Some 20,
                             body_rating := Some 2,
                             body_content := Some ''Not as good as I remembered''\<rparr>)
             example_store))) =
            map_option (\<lambda>bk. bk\<lparr>rating := round_double mean\<rparr>)
              (find (\<lambda>x. book_id x = bookId doc) (books example_store)))"
proof -
  let ?req = "blank_request\<lparr>authorization := Some ''Bearer alice.jwt'', param_id := Some 20,
                      body_rating := Some 2, body_content := Some ''Not as good as I remembered''\<rparr>"
  let ?out = "put_reviews example_env ?req example_store"
  have run: "?out = (fst ?out, snd ?out)" by simp
  have ok: "status (fst ?out) = 200"
    by (simp add: put_reviews_def update_review_def Review_save_def middleware_defs store_defs
        example_defs Let_def)
  have range: "\<forall>r\<in>set (reviews example_store). 1 \<le> review_rating r \<and> review_rating r \<le> 5"
    by (simp add: example_defs)
  have size: "length (reviews example_store) < 2 ^ 32"
    by (simp add: example_defs)
  have rs: "map review_rating (reviews example_store) = [4]"
    by (simp add: example_defs)
  from update_review_recomputes_rating [OF run ok range size] obtain doc mean where
    "doc \<in> set (reviews example_store)" "param_id ?req = Some (review_id doc)"
    "mean = arithmetic_mean (map review_rating (filter (\<lambda>r. bookId r = bookId doc)
       (reviews (snd ?out))))"
    "find (\<lambda>x. book_id x = bookId doc) (books (snd ?out)) =
       map_option (\<lambda>bk. bk\<lparr>rating := round_double mean\<rparr>)
         (find (\<lambda>x. book_id x = bookId doc) (books example_store))"
    by blast
  then have "\<exists>doc mean. doc \<in> set (reviews example_store) \<and> review_id doc = 20
        \<and> mean = arithmetic_mean (map review_rating (filter (\<lambda>r. bookId r = bookId doc)
             (reviews (snd ?out))))
        \<and> find (\<lambda>x. book_id x = bookId doc) (books (snd ?out)) =
            map_option (\<lambda>bk. bk\<lparr>rating := round_double mean\<rparr>)
              (find (\<lambda>x. book_id x = bookId doc) (books example_store))"
    by (intro exI [of _ doc] exI [of _ mean]) simp
  with ok rs show ?thesis by simp
qed

section \<open>Registration\<close>

lemma route_user_validation:
  "route [userValidation, validate] h env req s =
     (if validation_errors req @ user_username_errors req @ user_email_errors env req
           @ user_password_errors req = []
      then h env (req\<lparr>body_username := map_option trim (body_username req),
                      body_email := map_option (normalizeEmail env) (body_email req),
                      validation_errors := []\<rparr>) s
      else (\<lparr>status = 400,
             body = JObj [(''errors'', JArr (map validation_error_json
                      (validation_errors req @ user_username_errors req
                         @ user_email_errors env req @ user_password_errors req)))]\<rparr>, s))"
  by (simp add: userValidation_def validate_def)

lemma route_user_validation_ok:
  "validation_errors req @ user_username_errors req @ user_email_errors env req
     @ user_password_errors req = [] \<Longrightarrow>
   route [userValidation, validate] h env req s =
     h env (req\<lparr>body_username := map_option trim (body_username req),
                 body_email := map_option (normalizeEmail env) (body_email req),
                 validation_errors := []\<rparr>) s"
  unfolding route_user_validation by simp

lemma route_user_validation_bad:
  "validation_errors req @ user_username_errors req @ user_email_errors env req
     @ user_password_errors req \<noteq> [] \<Longrightarrow>
   route [userValidation, validate] h env req s =
     (\<lparr>status = 400,
       body = JObj [(''errors'', JArr (map validation_error_json
                (validation_errors req @ user_username_errors req
                   @ user_email_errors env req @ user_password_errors req)))]\<rparr>, s)"
  by (simp only: route_user_validation if_False)

lemma user_errors_Nil:
  assumes "user_username_errors req @ user_email_errors env req @ user_password_errors req = []"
  shows "\<exists>n e p. body_username req = Some n \<and> body_email req = Some e
           \<and> body_password req = Some p"
  using assms
  by (auto simp: user_username_errors_def user_email_errors_def user_password_errors_def
      split: option.splits)

lemma register_user_existing:
  assumes "body_username req = Some n" and "body_email req = Some e"
    and "body_password req = Some p"
    and "u \<in> set (users s)" and "email u = e \<or> username u = n"
  shows "register_user env req s =
           (\<lparr>status = 400,
             body = error_json ''User with this email or username already exists''\<rparr>, s)"
proof -
  from assms(4,5) have "User_findOne_email_or_username e n s \<noteq> None"
    by (auto simp: User_findOne_email_or_username_def find_None_iff)
  then obtain x where "User_findOne_email_or_username e n s = Some x" by blast
  with assms(1-3) show ?thesis by (simp add: register_user_def)
qed

lemma User_create_Inr:
  "User_create un em pw now s = Inr (doc, s1) \<Longrightarrow>
   users s1 = users s @ [doc] \<and> username doc = un \<and> email doc = em \<and> password doc = pw
   \<and> books s1 = books s \<and> reviews s1 = reviews s"
  by (auto simp: User_create_def Let_def split: if_splits)

text \<open>
  A successful registration stores the user under the sanitised address and name, so a
  later registration that sends the same address (or name) meets it in the pre-check.
\<close>

lemma registered_user_stored:
  assumes run: "post_register env req s = (resp, s')" and created: "status resp = 201"
  shows "\<exists>doc e n. body_email req = Some e \<and> body_username req = Some n
           \<and> users s' = users s @ [doc]
           \<and> email doc = normalizeEmail env e \<and> username doc = trim n"
proof (cases "validation_errors req @ user_username_errors req @ user_email_errors env req
           @ user_password_errors req = []")
  case False
  from run created show ?thesis
    unfolding post_register_def route_user_validation_bad [OF False] by auto
next
  case True
  then have "user_username_errors req @ user_email_errors env req @ user_password_errors req = []"
    by simp
  from user_errors_Nil [OF this] obtain n e p where
    f: "body_username req = Some n" "body_email req = Some e" "body_password req = Some p"
    by blast
  let ?req = "req\<lparr>body_username := map_option trim (body_username req),
                      body_email := map_option (normalizeEmail env) (body_email req),
                      validation_errors := []\<rparr>"
  from run have r: "register_user env ?req s = (resp, s')"
    unfolding post_register_def route_user_validation_ok [OF True] .
  have nf: "User_findOne_email_or_username (normalizeEmail env e) (trim n) s = None"
    using r created f
    by (cases "User_findOne_email_or_username (normalizeEmail env e) (trim n) s")
      (auto simp: register_user_def)
  obtain doc s1 where
    c: "User_create (trim n) (normalizeEmail env e) (bcrypt_hash env p (bcrypt_genSalt env 10))
          (req_time req) s = Inr (doc, s1)"
    using r created f nf
    by (cases "User_create (trim n) (normalizeEmail env e)
                 (bcrypt_hash env p (bcrypt_genSalt env 10)) (req_time req) s")
      (auto simp: register_user_def server_error_def Let_def)
  from r f nf c have "s' = s1" by (simp add: register_user_def Let_def)
  with User_create_Inr [OF c] f show ?thesis by simp
qed

text \<open>
  C7. When a stored user already has the e-mail address of the request, or its user name
  (both as the handler reads them from the body, that is after the sanitizers of the
  validation chains: the address normalised, the name trimmed), \<open>POST /api/auth/register\<close>
  answers 400 and returns the store as it was: no user is created. (The answer is 400
  whether the validation or the pre-check of the handler rejects the request.)
\<close>

theorem duplicate_registration_rejected:
  assumes u: "u \<in> set (users s)"
    and taken: "(\<exists>e. body_email req = Some e \<and> email u = normalizeEmail env e)
              \<or> (\<exists>n. body_username req = Some n \<and> username u = trim n)"
  shows "\<exists>resp. post_register env req s = (resp, s) \<and> status resp = 400"
proof (cases "validation_errors req @ user_username_errors req @ user_email_errors env req
           @ user_password_errors req = []")
  case False
  show ?thesis
    unfolding post_register_def route_user_validation_bad [OF False] by simp
next
  case True
  then have "user_username_errors req @ user_email_errors env req @ user_password_errors req = []"
    by simp
  from user_errors_Nil [OF this] obtain n e p where
    f: "body_username req = Some n" "body_email req = Some e" "body_password req = Some p"
    by blast
  let ?req = "req\<lparr>body_username := map_option trim (body_username req),
                      body_email := map_option (normalizeEmail env) (body_email req),
                      validation_errors := []\<rparr>"
  have "register_user env ?req s =
           (\<lparr>status = 400,
             body = error_json ''User with this email or username already exists''\<rparr>, s)"
    by (rule register_user_existing [where n = "trim n" and e = "normalizeEmail env e"
          and p = p and u = u])
      (use f u taken in auto)
  then show ?thesis
    unfolding post_register_def route_user_validation_ok [OF True] by simp
qed


theorem duplicate_registration_rejected_witness:
  "alice \<in> set (users example_store)
   \<and> body_email (blank_request\<lparr>body_username := Some ''alice2'',
                     body_email := Some ''alice@example.com'',
                     body_password := Some ''lookingglass2''\<rparr>) = Some ''alice@example.com''
   \<and> email alice = normalizeEmail example_env ''alice@example.com''
   \<and> (\<exists>resp. post_register example_env
          (blank_request\<lparr>body_username := Some ''alice2'',
                     body_email := Some ''alice@example.com'',
                     body_password := Some ''lookingglass2''\<rparr>)
          example_store = (resp, example_store)
        \<and> status resp = 400)"
proof -
  let ?req = "blank_request\<lparr>body_username := Some ''alice2'',
                     body_email := Some ''alice@example.com'',
                     body_password := Some ''lookingglass2''\<rparr>"
  have h1: "alice \<in> set (users example_store)" by (simp add: example_store_def)
  have h2: "body_email ?req = Some ''alice@example.com''" by simp
  have h3: "email alice = normalizeEmail example_env ''alice@example.com''"
    by (simp add: alice_def example_env_def)
  have taken: "(\<exists>e. body_email ?req = Some e \<and> email alice = normalizeEmail example_env e)
              \<or> (\<exists>n. body_username ?req = Some n \<and> username alice = trim n)"
    using h2 h3 by (intro disjI1 exI conjI)
  from duplicate_registration_rejected [OF h1 taken] h1 h2 h3
  show ?thesis by simp
qed

section \<open>What the auth endpoints send back\<close>

lemma session_json_fields:
  "session_json token usr =
     JObj [(''token'', JStr token),
           (''user'', JObj [(''id'', JOid (user_id usr)), (''username'', JStr (username usr)),
                            (''email'', JStr (email usr))])]"
  by (simp add: session_json_def)

lemma select_without_password:
  "select_without ''password'' (user_document usr) =
     [(''_id'', JOid (user_id usr)), (''username'', JStr (username usr)),
      (''email'', JStr (email usr))] @
     (case profilePicture usr of None \<Rightarrow> [] | Some p \<Rightarrow> [(''profilePicture'', JStr p)]) @
     (case bio usr of None \<Rightarrow> [] | Some t \<Rightarrow> [(''bio'', JStr t)]) @
     [(''createdAt'', JDate (user_createdAt usr))]"
  by (simp add: select_without_def user_document_def split: option.splits)

lemma register_user_201:
  assumes "register_user env req s = (resp, s')" and "status resp = 201"
  shows "\<exists>usr. users s' = users s @ [usr]
           \<and> body resp = session_json
               (jwt_sign env \<lparr>claims_id = user_id usr, claims_username = username usr\<rparr>
                  (req_time req)) usr"
proof -
  obtain n e p where f: "body_username req = Some n" "body_email req = Some e"
      "body_password req = Some p"
    using assms
    by (cases "body_username req"; cases "body_email req"; cases "body_password req")
      (auto simp: register_user_def server_error_def)
  have nf: "User_findOne_email_or_username e n s = None"
    using assms f
    by (cases "User_findOne_email_or_username e n s") (auto simp: register_user_def)
  obtain doc s1 where
    c: "User_create n e (bcrypt_hash env p (bcrypt_genSalt env 10)) (req_time req) s = Inr (doc, s1)"
    using assms f nf
    by (cases "User_create n e (bcrypt_hash env p (bcrypt_genSalt env 10)) (req_time req) s")
      (auto simp: register_user_def server_error_def Let_def)
  from assms f nf c have "s' = s1"
    and "body resp = session_json
           (jwt_sign env \<lparr>claims_id = user_id doc, claims_username = username doc\<rparr> (req_time req))
           doc"
    by (auto simp: register_user_def Let_def)
  with User_create_Inr [OF c] show ?thesis by auto
qed

lemma login_user_200:
  assumes "login_user env req s = (resp, s')" and "status resp = 200"
  shows "\<exists>em usr. body_email req = Some em \<and> find (\<lambda>u. email u = em) (users s) = Some usr
           \<and> body resp = session_json
               (jwt_sign env \<lparr>claims_id = user_id usr, claims_username = username usr\<rparr>
                  (req_time req)) usr"
proof -
  obtain e where e: "body_email req = Some e"
    using assms by (cases "body_email req") (auto simp: login_user_def)
  obtain usr where u: "User_findOne_email e s = Some usr"
    using assms e by (cases "User_findOne_email e s") (auto simp: login_user_def)
  obtain p where p: "body_password req = Some p"
    using assms e u by (cases "body_password req") (auto simp: login_user_def server_error_def)
  from assms e u p have "body resp = session_json
      (jwt_sign env \<lparr>claims_id = user_id usr, claims_username = username usr\<rparr> (req_time req)) usr"
    by (auto simp: login_user_def Let_def split: if_splits)
  with e u show ?thesis by (simp add: User_findOne_email_def)
qed

lemma current_user_200:
  assumes "current_user env (req\<lparr>req_user := Some decoded\<rparr>) s = (resp, s')"
  shows "case find (\<lambda>u. user_id u = claims_id decoded) (users s) of
           None \<Rightarrow> body resp = JNull
         | Some usr \<Rightarrow> body resp = JObj (select_without ''password'' (user_document usr))"
  using assms by (auto simp: current_user_def User_findById_def split: option.splits)

lemma route_login_validation:
  "route [loginValidation, validate] h env req s =
     (if validation_errors req @ login_email_errors env req @ login_password_errors req = []
      then h env (req\<lparr>body_email := map_option (normalizeEmail env) (body_email req),
                      validation_errors := []\<rparr>) s
      else (\<lparr>status = 400,
             body = JObj [(''errors'', JArr (map validation_error_json
                      (validation_errors req @ login_email_errors env req
                         @ login_password_errors req)))]\<rparr>, s))"
  by (simp add: loginValidation_def validate_def)

lemma authLimiter_cases:
  obtains (limited) resp hits where
      "authLimiter env req s = Inl (resp, s\<lparr>authLimiter_hits := hits\<rparr>)" "status resp = 429"
  | (passed) hits where "authLimiter env req s = Inr (req, s\<lparr>authLimiter_hits := hits\<rparr>)"
proof -
  obtain pass hits where
    r: "rateLimit authLimiter_config (authLimiter_hits s) (req_ip req) (req_time req) = (pass, hits)"
    by (cases "rateLimit authLimiter_config (authLimiter_hits s) (req_ip req) (req_time req)")
  show thesis
  proof (cases pass)
    case True
    with r have "authLimiter env req s = Inr (req, s\<lparr>authLimiter_hits := hits\<rparr>)"
      by (simp add: authLimiter_def)
    then show thesis by (rule passed)
  next
    case False
    with r have "authLimiter env req s =
        Inl (\<lparr>status = 429, body = JStr (message authLimiter_config)\<rparr>,
             s\<lparr>authLimiter_hits := hits\<rparr>)"
      by (simp add: authLimiter_def)
    then show thesis by (rule limited) simp
  qed
qed

lemma post_register_201:
  assumes run: "post_register env req s = (resp, s')" and created: "status resp = 201"
  shows "\<exists>usr. users s' = users s @ [usr]
           \<and> body resp = session_json
               (jwt_sign env \<lparr>claims_id = user_id usr, claims_username = username usr\<rparr>
                  (req_time req)) usr"
proof (cases "validation_errors req @ user_username_errors req @ user_email_errors env req
           @ user_password_errors req = []")
  case False
  from run created show ?thesis
    unfolding post_register_def route_user_validation_bad [OF False] by auto
next
  case True
  from run have "register_user env
      (req\<lparr>body_username := map_option trim (body_username req),
            body_email := map_option (normalizeEmail env) (body_email req),
            validation_errors := []\<rparr>) s = (resp, s')"
    unfolding post_register_def route_user_validation_ok [OF True] .
  from register_user_201 [OF this created] show ?thesis by simp
qed

lemma post_login_200:
  assumes run: "post_login env req s = (resp, s')" and ok: "status resp = 200"
  shows "\<exists>em usr. body_email req = Some em
           \<and> find (\<lambda>u. email u = normalizeEmail env em) (users s) = Some usr
           \<and> body resp = session_json
               (jwt_sign env \<lparr>claims_id = user_id usr, claims_username = username usr\<rparr>
                  (req_time req)) usr"
proof (cases rule: authLimiter_cases [of env req s])
  case (limited r hits)
  with run ok show ?thesis by (simp add: post_login_def)
next
  case (passed hits)
  let ?s1 = "s\<lparr>authLimiter_hits := hits\<rparr>"
  from run passed have r: "route [loginValidation, validate] login_user env req ?s1 = (resp, s')"
    by (simp add: post_login_def)
  show ?thesis
  proof (cases "validation_errors req @ login_email_errors env req @ login_password_errors req = []")
    case True
    with r have l: "login_user env
        (req\<lparr>body_email := map_option (normalizeEmail env) (body_email req),
              validation_errors := []\<rparr>) ?s1 = (resp, s')"
      unfolding route_login_validation by simp
    from login_user_200 [OF l ok] obtain em usr where
      e: "map_option (normalizeEmail env) (body_email req) = Some em"
      and u: "find (\<lambda>u. email u = em) (users s) = Some usr"
      and b: "body resp = session_json
               (jwt_sign env \<lparr>claims_id = user_id usr, claims_username = username usr\<rparr>
                  (req_time req)) usr"
      by auto
    from e obtain em0 where e0: "body_email req = Some em0" "em = normalizeEmail env em0"
      by (cases "body_email req") auto
    show ?thesis
    proof (intro exI conjI)
      show "body_email req = Some em0" by (rule e0(1))
      show "find (\<lambda>u. email u = normalizeEmail env em0) (users s) = Some usr"
        using u e0(2) by simp
      show "body resp = session_json
               (jwt_sign env \<lparr>claims_id = user_id usr, claims_username = username usr\<rparr>
                  (req_time req)) usr"
        by (rule b)
    qed
  next
    case False
    with r have "resp = \<lparr>status = 400,
             body = JObj [(''errors'', JArr (map validation_error_json
                      (validation_errors req @ login_email_errors env req
                         @ login_password_errors req)))]\<rparr>"
      unfolding route_login_validation by (simp only: if_False prod.inject)
    with ok show ?thesis by simp
  qed
qed

lemma authenticate_Inr_token:
  assumes "authenticate env req s = Inr (req', s')"
  shows "\<exists>hdr token decoded. authorization req = Some hdr
           \<and> at_index (split CHR '' '' hdr) 1 = Some token
           \<and> jwt_verify env token (req_time req) = Some decoded
           \<and> req' = req\<lparr>req_user := Some decoded\<rparr> \<and> s' = s"
  using assms by (auto simp: authenticate_def split: option.splits if_splits)

lemma get_me_200:
  assumes run: "get_me env req s = (resp, s')" and ok: "status resp = 200"
  shows "\<exists>hdr token decoded. authorization req = Some hdr
           \<and> at_index (split CHR '' '' hdr) 1 = Some token
           \<and> jwt_verify env token (req_time req) = Some decoded
           \<and> (case find (\<lambda>u. user_id u = claims_id decoded) (users s) of
                None \<Rightarrow> body resp = JNull
              | Some usr \<Rightarrow> body resp = JObj (select_without ''password'' (user_document usr)))"
proof (cases "authenticate env req s")
  case (Inl a)
  with run have "a = (resp, s')" by (simp add: get_me_def)
  with Inl authenticate_Inl [of env req s resp s'] ok show ?thesis by simp
next
  case (Inr b)
  obtain req1 s1 where b: "b = (req1, s1)" by (cases b)
  from authenticate_Inr_token [OF Inr [unfolded b]] obtain hdr token decoded where
    t: "authorization req = Some hdr" "at_index (split CHR '' '' hdr) 1 = Some token"
      "jwt_verify env token (req_time req) = Some decoded"
    and r: "req1 = req\<lparr>req_user := Some decoded\<rparr>" "s1 = s"
    by blast
  from run Inr b r have "current_user env (req\<lparr>req_user := Some decoded\<rparr>) s = (resp, s')"
    by (simp add: get_me_def)
  note c = current_user_200 [OF this]
  show ?thesis
  proof (intro exI conjI)
    show "authorization req = Some hdr" by (rule t(1))
    show "at_index (split CHR '' '' hdr) 1 = Some token" by (rule t(2))
    show "jwt_verify env token (req_time req) = Some decoded" by (rule t(3))
    show "case find (\<lambda>u. user_id u = claims_id decoded) (users s) of
            None \<Rightarrow> body resp = JNull
          | Some usr \<Rightarrow> body resp = JObj (select_without ''password'' (user_document usr))"
      by (rule c)
  qed
qed

text \<open>
  C9. A successful answer of \<open>POST /api/auth/register\<close> (201) or
  \<open>POST /api/auth/login\<close> (200) is the object \<open>{ token, user: { id, username, email } }\<close>
  and nothing else: the three fields are those of the user just stored (register) or of
  the first stored user with the normalized e-mail address of the request (login), and the
  token is what \<open>jwt.sign\<close> gives for the id and the name of that user at the time of the
  request, so that no part of the body is computed from the stored password. A successful
  answer of \<open>GET /api/auth/me\<close> (200) belongs to the user whose id is in the verified
  token of the request: it is \<open>null\<close> when no such user is stored, and otherwise the
  document of the first stored user with that id, made of \<open>_id\<close>, \<open>username\<close>,
  \<open>email\<close>, the optional \<open>profilePicture\<close> and \<open>bio\<close>, and \<open>createdAt\<close>, without the
  \<open>password\<close> field.
\<close>

theorem auth_responses_omit_password:
  assumes run: "app ep env req s = (resp, s')"
    and success: "ep = POST_auth_register \<and> status resp = 201
                \<or> ep = POST_auth_login \<and> status resp = 200
                \<or> ep = GET_auth_me \<and> status resp = 200"
  shows "(ep = POST_auth_register \<and>
            (\<exists>usr. users s' = users s @ [usr]
               \<and> body resp =
                   JObj [(''token'', JStr (jwt_sign env
                            \<lparr>claims_id = user_id usr, claims_username = username usr\<rparr>
                            (req_time req))),
                         (''user'', JObj [(''id'', JOid (user_id usr)),
                                          (''username'', JStr (username usr)),
                                          (''email'', JStr (email usr))])]))
       \<or> (ep = POST_auth_login \<and>
            (\<exists>em usr. body_email req = Some em
               \<and> find (\<lambda>u. email u = normalizeEmail env em) (users s) = Some usr
               \<and> body resp =
                   JObj [(''token'', JStr (jwt_sign env
                            \<lparr>claims_id = user_id usr, claims_username = username usr\<rparr>
                            (req_time req))),
                         (''user'', JObj [(''id'', JOid (user_id usr)),
                                          (''username'', JStr (username usr)),
                                          (''email'', JStr (email usr))])]))
       \<or> (ep = GET_auth_me \<and>
            (\<exists>hdr token decoded. authorization req = Some hdr
               \<and> at_index (split CHR '' '' hdr) 1 = Some token
               \<and> jwt_verify env token (req_time req) = Some decoded
               \<and> (case find (\<lambda>u. user_id u = claims_id decoded) (users s) of
                    None \<Rightarrow> body resp = JNull
                  | Some usr \<Rightarrow>
                      body resp =
                        JObj ([(''_id'', JOid (user_id usr)), (''username'', JStr (username usr)),
                               (''email'', JStr (email usr))] @
                              (case profilePicture usr of
                                 None \<Rightarrow> [] | Some p \<Rightarrow> [(''profilePicture'', JStr p)]) @
                              (case bio usr of None \<Rightarrow> [] | Some t \<Rightarrow> [(''bio'', JStr t)]) @
                              [(''createdAt'', JDate (user_createdAt usr))]))))"
proof -
  from run have r: "router ep env req s = (resp, s')"
    by (simp add: app_def cors_def express_json_def)
  from success consider
    (register) "ep = POST_auth_register" "status resp = 201"
    | (login) "ep = POST_auth_login" "status resp = 200"
    | (me) "ep = GET_auth_me" "status resp = 200"
    by blast
  then show ?thesis
  proof cases
    case register
    with r have "post_register env req s = (resp, s')" by simp
    from post_register_201 [OF this register(2), unfolded session_json_fields] register(1)
    show ?thesis by (intro disjI1 conjI)
  next
    case login
    with r have "post_login env req s = (resp, s')" by simp
    from post_login_200 [OF this login(2), unfolded session_json_fields] login(1)
    show ?thesis by (intro disjI2 disjI1 conjI)
  next
    case me
    with r have "get_me env req s = (resp, s')" by simp
    from get_me_200 [OF this me(2), unfolded select_without_password] me(1)
    show ?thesis by (intro disjI2 conjI)
  qed
qed

theorem auth_responses_omit_password_witness:
  "status (fst (app POST_auth_login example_env
      (blank_request\<lparr>body_email := Some ''alice@example.com'',
                      body_password := Some ''wonderland1''\<rparr>) example_store)) = 200
   \<and> body (fst (app POST_auth_login example_env
        (blank_request\<lparr>body_email := Some ''alice@example.com'',
                        body_password := Some ''wonderland1''\<rparr>) example_store))
       = JObj [(''token'', JStr ''alice.jwt''),
               (''user'', JObj [(''id'', JOid 1), (''username'', JStr ''alice''),
                                (''email'', JStr ''alice@example.com'')])]"
proof -
  let ?req = "blank_request\<lparr>body_email := Some ''alice@example.com'',
                      body_password := Some ''wonderland1''\<rparr>"
  let ?out = "app POST_auth_login example_env ?req example_store"
  have run: "?out = (fst ?out, snd ?out)" by simp
  have ok: "status (fst ?out) = 200"
    by (simp add: app_def cors_def express_json_def post_login_def authLimiter_def rateLimit_def
        authLimiter_config_def loginValidation_def login_email_errors_def
        login_password_errors_def validate_def login_user_def User_findOne_email_def
        example_defs Let_def)
  then have success: "POST_auth_login = POST_auth_register \<and> status (fst ?out) = 201
                \<or> POST_auth_login = POST_auth_login \<and> status (fst ?out) = 200
                \<or> POST_auth_login = GET_auth_me \<and> status (fst ?out) = 200"
    by simp
  have e: "body_email ?req = Some ''alice@example.com''" by simp
  have u: "find (\<lambda>u. email u = normalizeEmail example_env ''alice@example.com'')
             (users example_store) = Some alice"
    by (simp add: example_defs)
  from auth_responses_omit_password [OF run success] obtain em usr where
    "body_email ?req = Some em"
    "find (\<lambda>u. email u = normalizeEmail example_env em) (users example_store) = Some usr"
    "body (fst ?out) =
       JObj [(''token'', JStr (jwt_sign example_env
                \<lparr>claims_id = user_id usr, claims_username = username usr\<rparr> (req_time ?req))),
             (''user'', JObj [(''id'', JOid (user_id usr)), (''username'', JStr (username usr)),
                              (''email'', JStr (email usr))])]"
    by auto
  with e u have "body (fst ?out) =
       JObj [(''token'', JStr (jwt_sign example_env
                \<lparr>claims_id = user_id alice, claims_username = username alice\<rparr> (req_time ?req))),
             (''user'', JObj [(''id'', JOid (user_id alice)), (''username'', JStr (username alice)),
                              (''email'', JStr (email alice))])]"
    by simp
  then have "body (fst ?out) = JObj [(''token'', JStr ''alice.jwt''),
               (''user'', JObj [(''id'', JOid 1), (''username'', JStr ''alice''),
                                (''email'', JStr ''alice@example.com'')])]"
    by (simp add: example_env_def alice_def)
  with ok show ?thesis by simp
qed

section \<open>The paginated listing\<close>

lemma Number_of_int_9: "Number_of_int 9 = Num 9"
  using Number_of_int_exact [of 9] by simp

text \<open>For a page that is an integer from 1 on, the skip is computed exactly.\<close>

lemma skip_exact:
  assumes "1 \<le> p" and "(p - 1) * 9 < 2 ^ 53"
  shows "js_mul (js_sub (Num (of_int p)) (Num 1)) (Num 9) = Num (of_int ((p - 1) * 9))"
proof -
  from assms have p: "p < 2 ^ 53" by simp
  from js_sub_int [of 1 p] assms(1) p
  have a: "js_sub (Num (of_int p)) (Num (of_int 1)) = Num (of_int (p - 1))" by simp
  from js_mul_int [of "p - 1" 9] assms
  have b: "js_mul (Num (of_int (p - 1))) (Num (of_int 9)) = Num (of_int ((p - 1) * 9))" by simp
  have "js_mul (js_sub (Num (of_int p)) (Num (of_int 1))) (Num (of_int 9))
      = Num (of_int ((p - 1) * 9))"
    by (simp only: a b)
  then show ?thesis by (simp only: of_int_1 of_int_numeral)
qed

lemma Book_find_page_Inr:
  assumes "0 \<le> k" and "k < 2 ^ 63"
  shows "Book_find_page query (Num (of_int k)) limit bs =
           Inr (take limit (drop (nat k)
                  (sort_key (\<lambda>b. - int (book_createdAt b)) (filter query bs))))"
proof -
  from assms(2) have "(of_int k :: rat) < of_int (2 ^ 63)" by (simp only: of_int_less_iff)
  then have "\<not> (2 ^ 63 \<le> (of_int k :: rat))" by simp
  moreover from assms(1) have "\<not> ((of_int k :: rat) < 0)" by simp
  ultimately show ?thesis by (simp add: Book_find_page_def)
qed

lemma sort_by_createdAt:
  "mset (sort_key (\<lambda>b. - int (book_createdAt b)) (filter query bs)) = mset (filter query bs)"
  "sorted_wrt (\<lambda>a b. book_createdAt b \<le> book_createdAt a)
     (sort_key (\<lambda>b. - int (book_createdAt b)) (filter query bs))"
proof -
  let ?ordered = "sort_key (\<lambda>b. - int (book_createdAt b)) (filter query bs)"
  show "mset ?ordered = mset (filter query bs)" by simp
  have "sorted (map (\<lambda>b. - int (book_createdAt b)) ?ordered)"
    by (rule sorted_sort_key)
  then have "sorted_wrt (\<lambda>a b. - int (book_createdAt a) \<le> - int (book_createdAt b)) ?ordered"
    by (simp only: sorted_wrt_map)
  then show "sorted_wrt (\<lambda>a b. book_createdAt b \<le> book_createdAt a) ?ordered"
    by simp
qed

lemma list_books_unfold:
  assumes "(case query_page req of
              None \<Rightarrow> \<lparr>ToNumber = Num 1, parseInt = Num 1\<rparr> | Some p \<Rightarrow> p) = pg"
    and "(if query_search req \<noteq> [] then map_option Some (new_RegExp_i env (query_search req))
         else Some None) = Some re"
    and "Book_find_page (query_matches re (query_genre req))
           (js_mul (js_sub (ToNumber pg) (Num 1)) (Num 9)) 9 (books s) = Inr found"
  shows "list_books env req s =
           (\<lparr>status = 200,
             body = JObj [(''books'', JArr (map book_json found)),
                          (''totalPages'',
                             JNumber (Math_ceil (js_div
                               (Number_of_int (int (length
                                  (filter (query_matches re (query_genre req)) (books s)))))
                               (Num 9)))),
                          (''currentPage'', JNumber (parseInt pg))]\<rparr>, s)"
  using assms by (simp add: list_books_def Let_def Book_countDocuments_def Number_of_int_9)

lemma list_books_200:
  assumes page: "query_page req = None \<and> p = 1
               \<or> query_page req = Some \<lparr>ToNumber = Num (of_int p), parseInt = Num (of_int p)\<rparr>
                   \<and> 1 \<le> p \<and> (p - 1) * 9 < 2 ^ 53"
    and search: "query_search req = [] \<and> re = None
               \<or> query_search req \<noteq> [] \<and> new_RegExp_i env (query_search req) = Some test
                   \<and> re = Some test"
    and count: "length (filter (query_matches re (query_genre req)) (books s)) < 2 ^ 53"
  shows "list_books env req s =
           (\<lparr>status = 200,
             body = JObj [(''books'',
                             JArr (map book_json (take 9 (drop (nat ((p - 1) * 9))
                               (sort_key (\<lambda>b. - int (book_createdAt b))
                                  (filter (query_matches re (query_genre req)) (books s))))))),
                          (''totalPages'',
                             JNumber (Num (of_int \<lceil>(of_nat (length
                               (filter (query_matches re (query_genre req)) (books s))) :: rat)
                                 / 9\<rceil>))),
                          (''currentPage'', JNumber (Num (of_int p)))]\<rparr>, s)"
proof -
  let ?q = "query_matches re (query_genre req)"
  let ?pg = "\<lparr>ToNumber = Num (of_int p), parseInt = Num (of_int p)\<rparr>"
  from page have pg: "(case query_page req of
              None \<Rightarrow> \<lparr>ToNumber = Num 1, parseInt = Num 1\<rparr> | Some p \<Rightarrow> p) = ?pg"
    and p1: "1 \<le> p" and p53: "(p - 1) * 9 < 2 ^ 53"
    by auto
  from search have re:
    "(if query_search req \<noteq> [] then map_option Some (new_RegExp_i env (query_search req))
      else Some None) = Some re"
    by auto
  from p1 have k0: "0 \<le> (p - 1) * 9" by simp
  from p53 have k63: "(p - 1) * 9 < 2 ^ 63" by simp
  have skip: "js_mul (js_sub (ToNumber ?pg) (Num 1)) (Num 9) = Num (of_int ((p - 1) * 9))"
    using skip_exact [OF p1 p53] by simp
  have found: "Book_find_page ?q (js_mul (js_sub (ToNumber ?pg) (Num 1)) (Num 9)) 9 (books s)
        = Inr (take 9 (drop (nat ((p - 1) * 9))
                 (sort_key (\<lambda>b. - int (book_createdAt b)) (filter ?q (books s)))))"
    unfolding skip by (rule Book_find_page_Inr [OF k0 k63])
  show ?thesis
    unfolding list_books_unfold [OF pg re found] Math_ceil_div_9 [OF count] by simp
qed

text \<open>
  C10, as stated, fails: with \<open>page=0\<close> the skip is \<open>-9\<close>, the database rejects the
  query, and the handler answers 500 with an error message and no listing; so it does
  when \<open>search\<close> is not a regular expression (\<open>(\<close>, an unterminated group), where
  \<open>new RegExp\<close> throws.
\<close>

theorem list_books_page_zero_counterexample:
  "list_books example_env
       (blank_request\<lparr>query_page := Some \<lparr>ToNumber = Num 0, parseInt = Num 0\<rparr>\<rparr>) example_store
     = (\<lparr>status = 500, body = JObj [(''error'', JStr ''Skip value must be non-negative'')]\<rparr>,
        example_store)
   \<and> list_books example_env (blank_request\<lparr>query_search := ''(''\<rparr>) example_store
     = (\<lparr>status = 500, body = JObj [(''error'', JStr ''Invalid regular expression'')]\<rparr>,
        example_store)"
proof -
  have "round_double (- 1) = Num (- 1)" "round_double (- 9) = Num (- 9)"
    by (simp_all add: round_double_minus round_double_numeral round_double_0_1)
  then show ?thesis
    by (simp add: list_books_def Book_find_page_def server_error_def error_json_def
        blank_request_def example_env_def Number_of_int_9 js_sub_def Let_def)
qed

text \<open>
  C10, amended. When the request has no \<open>page\<close>, or a \<open>page\<close> that is the numeral of an
  integer from 1 on (both of its readings, \<open>page - 1\<close> and \<open>parseInt(page)\<close>, give that
  integer), and the search text is empty or compiles as a regular expression,
  \<open>GET /api/books\<close> answers 200 and leaves the store as it was; the body holds at most
  9 books, namely those at positions \<open>(page - 1) * 9\<close> to \<open>(page - 1) * 9 + 8\<close> of the
  matching books arranged by \<open>createdAt\<close> descending, and \<open>totalPages\<close> is the ceiling
  of the number of matching books divided by 9; \<open>currentPage\<close> is the page. The skip and
  the number of matching books are below \<open>2 ^ 53\<close>, so that the Numbers of the handler
  hold them exactly.
\<close>

theorem list_books_page:
  assumes page: "query_page req = None \<and> p = 1
               \<or> query_page req = Some \<lparr>ToNumber = Num (of_int p), parseInt = Num (of_int p)\<rparr>
                   \<and> 1 \<le> p \<and> (p - 1) * 9 < 2 ^ 53"
    and search: "query_search req = [] \<and> re = None
               \<or> query_search req \<noteq> [] \<and> new_RegExp_i env (query_search req) = Some test
                   \<and> re = Some test"
    and count: "length (filter (query_matches re (query_genre req)) (books s)) < 2 ^ 53"
  shows "\<exists>found ordered.
           list_books env req s =
             (\<lparr>status = 200,
               body = JObj [(''books'', JArr (map book_json found)),
                            (''totalPages'',
                               JNumber (Num (of_int \<lceil>(of_nat (length
                                 (filter (query_matches re (query_genre req)) (books s))) :: rat)
                                   / 9\<rceil>))),
                            (''currentPage'', JNumber (Num (of_int p)))]\<rparr>, s)
         \<and> length found \<le> 9
         \<and> found = take 9 (drop (nat ((p - 1) * 9)) ordered)
         \<and> mset ordered = mset (filter (query_matches re (query_genre req)) (books s))
         \<and> sorted_wrt (\<lambda>a b. book_createdAt b \<le> book_createdAt a) ordered"
proof (intro exI conjI)
  let ?ordered = "sort_key (\<lambda>b. - int (book_createdAt b))
                    (filter (query_matches re (query_genre req)) (books s))"
  let ?found = "take 9 (drop (nat ((p - 1) * 9)) ?ordered)"
  show "list_books env req s =
             (\<lparr>status = 200,
               body = JObj [(''books'', JArr (map book_json ?found)),
                            (''totalPages'',
                               JNumber (Num (of_int \<lceil>(of_nat (length
                                 (filter (query_matches re (query_genre req)) (books s))) :: rat)
                                   / 9\<rceil>))),
                            (''currentPage'', JNumber (Num (of_int p)))]\<rparr>, s)"
    by (rule list_books_200 [OF page search count])
  show "length ?found \<le> 9" by simp
  show "?found = take 9 (drop (nat ((p - 1) * 9)) ?ordered)" by (rule refl)
  show "mset ?ordered = mset (filter (query_matches re (query_genre req)) (books s))"
    by (rule sort_by_createdAt(1))
  show "sorted_wrt (\<lambda>a b. book_createdAt b \<le> book_createdAt a) ?ordered"
    by (rule sort_by_createdAt(2))
qed

theorem list_books_page_witness:
  "map book_createdAt (books example_store) = [300]
   \<and> (\<exists>found ordered.
         list_books example_env
             (blank_request\<lparr>query_page := Some \<lparr>ToNumber = Num 1, parseInt = Num 1\<rparr>\<rparr>)
             example_store =
           (\<lparr>status = 200,
             body = JObj [(''books'', JArr (map book_json found)),
                          (''totalPages'', JNumber (Num 1)),
                          (''currentPage'', JNumber (Num 1))]\<rparr>, example_store)
       \<and> length found \<le> 9
       \<and> found = take 9 ordered
       \<and> mset ordered = mset (books example_store)
       \<and> sorted_wrt (\<lambda>a b. book_createdAt b \<le> book_createdAt a) ordered)"
proof -
  let ?req = "blank_request\<lparr>query_page := Some \<lparr>ToNumber = Num 1, parseInt = Num 1\<rparr>\<rparr>"
  have page: "query_page ?req = None \<and> (1::int) = 1
            \<or> query_page ?req = Some \<lparr>ToNumber = Num (of_int 1), parseInt = Num (of_int 1)\<rparr>
                \<and> (1::int) \<le> 1 \<and> ((1::int) - 1) * 9 < 2 ^ 53"
    by simp
  have search: "query_search ?req = [] \<and> (None :: (string \<Rightarrow> bool) option) = None
               \<or> query_search ?req \<noteq> []
                   \<and> new_RegExp_i example_env (query_search ?req) = Some (\<lambda>_. True)
                   \<and> None = Some (\<lambda>_. True)"
    by (simp add: blank_request_def)
  have all: "filter (query_matches None (query_genre ?req)) (books example_store)
           = books example_store"
    by (simp add: query_matches_def blank_request_def)
  have count: "length (filter (query_matches None (query_genre ?req)) (books example_store))
             < 2 ^ 53"
    by (simp add: all) (simp add: example_store_def)
  have c: "\<lceil>(of_nat (length (books example_store)) :: rat) / 9\<rceil> = 1"
    by (rule ceiling_unique) (simp_all add: example_store_def)
  from list_books_page [OF page search count, unfolded all c]
  have "\<exists>found ordered.
         list_books example_env ?req example_store =
           (\<lparr>status = 200,
             body = JObj [(''books'', JArr (map book_json found)),
                          (''totalPages'', JNumber (Num 1)),
                          (''currentPage'', JNumber (Num 1))]\<rparr>, example_store)
       \<and> length found \<le> 9
       \<and> found = take 9 ordered
       \<and> mset ordered = mset (books example_store)
       \<and> sorted_wrt (\<lambda>a b. book_createdAt b \<le> book_createdAt a) ordered"
    by simp
  moreover have "map book_createdAt (books example_store) = [300]"
    by (simp add: example_store_def dune_def)
  ultimately show ?thesis by simp
qed

section \<open>Rate limiting\<close>

text \<open>
  Mounted in front of a route, \<open>apiLimiter\<close> would reject the 101st request of a client
  within a window: with 100 hits counted and the window still open, it answers 429.
\<close>

lemma apiLimiter_rejects_after_max:
  assumes "apiLimiter_hits s (req_ip req) = Some (100, reset)" and "req_time req < reset"
  shows "\<exists>resp s'. apiLimiter env req s = Inl (resp, s') \<and> status resp = 429"
  using assms by (simp add: apiLimiter_def rateLimit_def apiLimiter_config_def)

lemma apiLimiter_counts:
  assumes "apiLimiter_hits s (req_ip req) = Some (c, reset)" and "req_time req < reset"
    and "c < 100"
  shows "\<exists>s'. apiLimiter env req s = Inr (req, s')
           \<and> apiLimiter_hits s' (req_ip req) = Some (Suc c, reset)"
  using assms by (simp add: apiLimiter_def rateLimit_def apiLimiter_config_def)

lemma serve_replicate_unchanged:
  assumes "app ep env req s = (resp, s)"
  shows "serve env (replicate n (ep, req)) s = (replicate n resp, s)"
  by (induction n) (simp_all add: assms)

text \<open>No middleware and no handler of the application reads or writes the counters of \<open>apiLimiter\<close>.\<close>

lemma route_keeps_apiLimiter_hits:
  assumes inl: "\<And>m req s resp s'. m \<in> set ms \<Longrightarrow> m env req s = Inl (resp, s') \<Longrightarrow>
                  apiLimiter_hits s' = apiLimiter_hits s"
    and inr: "\<And>m req s req' s'. m \<in> set ms \<Longrightarrow> m env req s = Inr (req', s') \<Longrightarrow>
                  apiLimiter_hits s' = apiLimiter_hits s"
    and h: "\<And>req s resp s'. h env req s = (resp, s') \<Longrightarrow> apiLimiter_hits s' = apiLimiter_hits s"
  shows "route ms h env req s = (resp, s') \<Longrightarrow> apiLimiter_hits s' = apiLimiter_hits s"
  using inl inr
proof (induction ms arbitrary: req s)
  case Nil
  from Nil(1) have "h env req s = (resp, s')" by simp
  then show ?case by (rule h)
next
  case (Cons m ms)
  have here: "m \<in> set (m # ms)" by simp
  show ?case
  proof (cases "m env req s")
    case (Inl a)
    with Cons.prems(1) have "m env req s = Inl (resp, s')" by simp
    with here show ?thesis by (rule Cons.prems(2))
  next
    case (Inr b)
    obtain req1 s1 where b: "b = (req1, s1)" by (cases b)
    with Inr have m: "m env req s = Inr (req1, s1)" by simp
    with Cons.prems(1) have r: "route ms h env req1 s1 = (resp, s')" by simp
    have "apiLimiter_hits s' = apiLimiter_hits s1"
      using r
    proof (rule Cons.IH)
      fix m' req' sa resp' s'a
      assume "m' \<in> set ms" and e: "m' env req' sa = Inl (resp', s'a)"
      then have "m' \<in> set (m # ms)" by simp
      then show "apiLimiter_hits s'a = apiLimiter_hits sa" using e by (rule Cons.prems(2))
    next
      fix m' req' sa req'' s'a
      assume "m' \<in> set ms" and e: "m' env req' sa = Inr (req'', s'a)"
      then have "m' \<in> set (m # ms)" by simp
      then show "apiLimiter_hits s'a = apiLimiter_hits sa" using e by (rule Cons.prems(3))
    qed
    also have "apiLimiter_hits s1 = apiLimiter_hits s"
      using here m by (rule Cons.prems(3))
    finally show ?thesis .
  qed
qed


lemma authenticate_keeps:
  "authenticate env req s = Inl (resp, s') \<Longrightarrow> apiLimiter_hits s' = apiLimiter_hits s"
  "authenticate env req s = Inr (req', s') \<Longrightarrow> apiLimiter_hits s' = apiLimiter_hits s"
proof -
  show "authenticate env req s = Inl (resp, s') \<Longrightarrow> apiLimiter_hits s' = apiLimiter_hits s"
    using authenticate_Inl [of env req s resp s'] by blast
  show "authenticate env req s = Inr (req', s') \<Longrightarrow> apiLimiter_hits s' = apiLimiter_hits s"
    using authenticate_Inr [of env req s req' s'] by blast
qed

lemma validation_keeps:
  "reviewValidation env req s = Inr (req', s') \<Longrightarrow> s' = s"
  "userValidation env req s = Inr (req', s') \<Longrightarrow> s' = s"
  "loginValidation env req s = Inr (req', s') \<Longrightarrow> s' = s"
  "reviewValidation env req s \<noteq> Inl a"
  "userValidation env req s \<noteq> Inl a"
  "loginValidation env req s \<noteq> Inl a"
  by (simp_all add: reviewValidation_def userValidation_def loginValidation_def)

lemma validate_keeps:
  "validate env req s = Inl (resp, s') \<Longrightarrow> s' = s"
  "validate env req s = Inr (req', s') \<Longrightarrow> s' = s"
  by (simp_all add: validate_def split: if_splits)

lemma authLimiter_keeps:
  "authLimiter env req s = Inl (resp, s') \<Longrightarrow> apiLimiter_hits s' = apiLimiter_hits s"
  "authLimiter env req s = Inr (req', s') \<Longrightarrow> apiLimiter_hits s' = apiLimiter_hits s"
proof -
  show "authLimiter env req s = Inl (resp, s') \<Longrightarrow> apiLimiter_hits s' = apiLimiter_hits s"
    by (cases rule: authLimiter_cases [of env req s]) auto
  show "authLimiter env req s = Inr (req', s') \<Longrightarrow> apiLimiter_hits s' = apiLimiter_hits s"
    by (cases rule: authLimiter_cases [of env req s]) auto
qed

lemma store_operations_keep:
  "apiLimiter_hits (Book_findByIdAndUpdate i f s) = apiLimiter_hits s"
  "apiLimiter_hits (Review_remove doc s) = apiLimiter_hits s"
  "Review_create b u r c now s = Inr (doc, s1) \<Longrightarrow> apiLimiter_hits s1 = apiLimiter_hits s"
  "Review_save doc r c now s = Inr (doc', s1) \<Longrightarrow> apiLimiter_hits s1 = apiLimiter_hits s"
  "User_create un em pw now s = Inr (usr, s1) \<Longrightarrow> apiLimiter_hits s1 = apiLimiter_hits s"
  by (auto simp: Book_findByIdAndUpdate_def Review_remove_def Review_create_def Review_save_def
      User_create_def Let_def split: option.splits if_splits)


lemma handlers_keep:
  "list_books env req s = (resp, s') \<Longrightarrow> apiLimiter_hits s' = apiLimiter_hits s"
  "get_book env req s = (resp, s') \<Longrightarrow> apiLimiter_hits s' = apiLimiter_hits s"
  "login_user env req s = (resp, s') \<Longrightarrow> apiLimiter_hits s' = apiLimiter_hits s"
  "current_user env req s = (resp, s') \<Longrightarrow> apiLimiter_hits s' = apiLimiter_hits s"
  by (auto simp: list_books_def get_book_def login_user_def current_user_def Let_def
      split: option.splits sum.splits if_splits)

lemma create_review_keeps:
  "create_review env req s = (resp, s') \<Longrightarrow> apiLimiter_hits s' = apiLimiter_hits s"
  by (auto simp: create_review_def Let_def store_operations_keep(1)
      split: option.splits sum.splits dest: store_operations_keep(3))

lemma update_review_keeps:
  "update_review env req s = (resp, s') \<Longrightarrow> apiLimiter_hits s' = apiLimiter_hits s"
  by (auto simp: update_review_def Let_def store_operations_keep(1)
      split: option.splits sum.splits dest: store_operations_keep(4))

lemma delete_review_keeps:
  "delete_review env req s = (resp, s') \<Longrightarrow> apiLimiter_hits s' = apiLimiter_hits s"
  by (auto simp: delete_review_def Let_def store_operations_keep(1,2)
      split: option.splits)

lemma register_user_keeps:
  "register_user env req s = (resp, s') \<Longrightarrow> apiLimiter_hits s' = apiLimiter_hits s"
  by (auto simp: register_user_def Let_def
      split: option.splits sum.splits dest: store_operations_keep(5))


lemma router_keeps_apiLimiter_hits:
  assumes "router ep env req s = (resp, s')"
  shows "apiLimiter_hits s' = apiLimiter_hits s"
proof (cases ep)
  case GET_books
  with assms show ?thesis by (simp add: handlers_keep(1))
next
  case GET_books_id
  with assms show ?thesis by (simp add: handlers_keep(2))
next
  case POST_reviews
  with assms have "route [authenticate, reviewValidation, validate] create_review env req s
      = (resp, s')"
    by (simp add: post_reviews_def del: route.simps)
  then show ?thesis
    by (rule route_keeps_apiLimiter_hits [rotated 3])
      (auto simp: validation_keeps(4) dest: authenticate_keeps validation_keeps(1) validate_keeps
        create_review_keeps)
next
  case PUT_reviews_id
  with assms have "route [authenticate, reviewValidation, validate] update_review env req s
      = (resp, s')"
    by (simp add: put_reviews_def del: route.simps)
  then show ?thesis
    by (rule route_keeps_apiLimiter_hits [rotated 3])
      (auto simp: validation_keeps(4) dest: authenticate_keeps validation_keeps(1) validate_keeps
        update_review_keeps)
next
  case DELETE_reviews_id
  with assms have "route [authenticate] delete_review env req s = (resp, s')"
    by (simp add: delete_reviews_def del: route.simps)
  then show ?thesis
    by (rule route_keeps_apiLimiter_hits [rotated 3])
      (auto dest: authenticate_keeps delete_review_keeps)
next
  case POST_auth_register
  with assms have "route [userValidation, validate] register_user env req s = (resp, s')"
    by (simp add: post_register_def del: route.simps)
  then show ?thesis
    by (rule route_keeps_apiLimiter_hits [rotated 3])
      (auto simp: validation_keeps(5) dest: validation_keeps(2) validate_keeps
        register_user_keeps)
next
  case POST_auth_login
  with assms have "route [authLimiter, loginValidation, validate] login_user env req s
      = (resp, s')"
    by (simp add: post_login_def del: route.simps)
  then show ?thesis
    by (rule route_keeps_apiLimiter_hits [rotated 3])
      (auto simp: validation_keeps(6) dest: authLimiter_keeps validation_keeps(3) validate_keeps
        handlers_keep(3))
next
  case GET_auth_me
  with assms have "route [authenticate] current_user env req s = (resp, s')"
    by (simp add: get_me_def del: route.simps)
  then show ?thesis
    by (rule route_keeps_apiLimiter_hits [rotated 3])
      (auto dest: authenticate_keeps handlers_keep(4))
qed

text \<open>Whatever is requested, the application leaves the counters of \<open>apiLimiter\<close> alone.\<close>

lemma app_never_counts_api_requests:
  assumes "app ep env req s = (resp, s')"
  shows "apiLimiter_hits s' = apiLimiter_hits s"
proof -
  from assms have "router ep env req s = (resp, s')"
    by (simp add: app_def cors_def express_json_def)
  then show ?thesis by (rule router_keeps_apiLimiter_hits)
qed


text \<open>
  C8 does not hold of the application: \<open>server.js\<close> mounts \<open>cors()\<close>,
  \<open>express.json()\<close> and the routers, and no route lists \<open>apiLimiter\<close>. Of 101
  requests \<open>GET /api/books\<close> that one client sends at the same instant, every one,
  the 101st included, is answered 200, and the limiter has counted nothing.
\<close>

theorem hundred_and_first_request_handled:
  "map status (fst (serve example_env (replicate 101 (GET_books, blank_request)) example_store))
     = replicate 101 200
   \<and> apiLimiter_hits
        (snd (serve example_env (replicate 101 (GET_books, blank_request)) example_store))
        (req_ip blank_request) = None"
proof -
  have page: "query_page blank_request = None \<and> (1::int) = 1
            \<or> query_page blank_request
                = Some \<lparr>ToNumber = Num (of_int 1), parseInt = Num (of_int 1)\<rparr>
                \<and> (1::int) \<le> 1 \<and> ((1::int) - 1) * 9 < 2 ^ 53"
    by (simp add: blank_request_def)
  have search: "query_search blank_request = [] \<and> (None :: (string \<Rightarrow> bool) option) = None
               \<or> query_search blank_request \<noteq> []
                   \<and> new_RegExp_i example_env (query_search blank_request) = Some (\<lambda>_. True)
                   \<and> None = Some (\<lambda>_. True)"
    by (simp add: blank_request_def)
  have count: "length (filter (query_matches None (query_genre blank_request))
                 (books example_store)) < 2 ^ 53"
    by (simp add: example_store_def)
  note l = list_books_200 [OF page search count]
  then have "app GET_books example_env blank_request example_store =
      (fst (list_books example_env blank_request example_store), example_store)"
    by (simp add: app_def cors_def express_json_def)
  moreover have "status (fst (list_books example_env blank_request example_store)) = 200"
    by (simp add: l)
  moreover have "apiLimiter_hits example_store (req_ip blank_request) = None"
    by (simp add: example_store_def)
  ultimately show ?thesis by (simp add: serve_replicate_unchanged)
qed

end
